theory Spec2Isabelle
  imports Main "HOL-Library.Word"
begin

unbundle bit_operations_syntax

section \<open>Stream constants (sdphy.py, lines 8-42)\<close>

abbreviation (input) SDCARD_STREAM_CMD :: bool where "SDCARD_STREAM_CMD \<equiv> False"
abbreviation (input) SDCARD_STREAM_DATA :: bool where "SDCARD_STREAM_DATA \<equiv> True"

abbreviation (input) SDCARD_STREAM_READ :: bool where "SDCARD_STREAM_READ \<equiv> False"
abbreviation (input) SDCARD_STREAM_WRITE :: bool where "SDCARD_STREAM_WRITE \<equiv> True"

abbreviation (input) SDCARD_STREAM_XFER :: "6 word" where "SDCARD_STREAM_XFER \<equiv> 0"
abbreviation (input) SDCARD_STREAM_CFG_TIMEOUT_CMD_HH :: "6 word" where "SDCARD_STREAM_CFG_TIMEOUT_CMD_HH \<equiv> 1"
abbreviation (input) SDCARD_STREAM_CFG_TIMEOUT_CMD_HL :: "6 word" where "SDCARD_STREAM_CFG_TIMEOUT_CMD_HL \<equiv> 2"
abbreviation (input) SDCARD_STREAM_CFG_TIMEOUT_CMD_LH :: "6 word" where "SDCARD_STREAM_CFG_TIMEOUT_CMD_LH \<equiv> 3"
abbreviation (input) SDCARD_STREAM_CFG_TIMEOUT_CMD_LL :: "6 word" where "SDCARD_STREAM_CFG_TIMEOUT_CMD_LL \<equiv> 4"
abbreviation (input) SDCARD_STREAM_CFG_TIMEOUT_DATA_HH :: "6 word" where "SDCARD_STREAM_CFG_TIMEOUT_DATA_HH \<equiv> 5"
abbreviation (input) SDCARD_STREAM_CFG_TIMEOUT_DATA_HL :: "6 word" where "SDCARD_STREAM_CFG_TIMEOUT_DATA_HL \<equiv> 6"
abbreviation (input) SDCARD_STREAM_CFG_TIMEOUT_DATA_LH :: "6 word" where "SDCARD_STREAM_CFG_TIMEOUT_DATA_LH \<equiv> 7"
abbreviation (input) SDCARD_STREAM_CFG_TIMEOUT_DATA_LL :: "6 word" where "SDCARD_STREAM_CFG_TIMEOUT_DATA_LL \<equiv> 8"
abbreviation (input) SDCARD_STREAM_CFG_BLKSIZE_H :: "6 word" where "SDCARD_STREAM_CFG_BLKSIZE_H \<equiv> 9"
abbreviation (input) SDCARD_STREAM_CFG_BLKSIZE_L :: "6 word" where "SDCARD_STREAM_CFG_BLKSIZE_L \<equiv> 10"
abbreviation (input) SDCARD_STREAM_CFG_VOLTAGE :: "6 word" where "SDCARD_STREAM_CFG_VOLTAGE \<equiv> 11"

abbreviation (input) SDCARD_STREAM_STATUS_OK :: "4 word" where "SDCARD_STREAM_STATUS_OK \<equiv> 0"
abbreviation (input) SDCARD_STREAM_STATUS_TIMEOUT :: "4 word" where "SDCARD_STREAM_STATUS_TIMEOUT \<equiv> 1"
abbreviation (input) SDCARD_STREAM_STATUS_DATAACCEPTED :: "4 word" where "SDCARD_STREAM_STATUS_DATAACCEPTED \<equiv> 2"
abbreviation (input) SDCARD_STREAM_STATUS_CRCERROR :: "4 word" where "SDCARD_STREAM_STATUS_CRCERROR \<equiv> 5"
abbreviation (input) SDCARD_STREAM_STATUS_WRITEERROR :: "4 word" where "SDCARD_STREAM_STATUS_WRITEERROR \<equiv> 6"

abbreviation (input) SDCARD_CTRL_DATA_TRANSFER_NONE :: "2 word" where "SDCARD_CTRL_DATA_TRANSFER_NONE \<equiv> 0"
abbreviation (input) SDCARD_CTRL_DATA_TRANSFER_READ :: "2 word" where "SDCARD_CTRL_DATA_TRANSFER_READ \<equiv> 1"
abbreviation (input) SDCARD_CTRL_DATA_TRANSFER_WRITE :: "2 word" where "SDCARD_CTRL_DATA_TRANSFER_WRITE \<equiv> 2"

abbreviation (input) SDCARD_CTRL_RESPONSE_NONE :: "2 word" where "SDCARD_CTRL_RESPONSE_NONE \<equiv> 0"
abbreviation (input) SDCARD_CTRL_RESPONSE_SHORT :: "2 word" where "SDCARD_CTRL_RESPONSE_SHORT \<equiv> 1"
abbreviation (input) SDCARD_CTRL_RESPONSE_LONG :: "2 word" where "SDCARD_CTRL_RESPONSE_LONG \<equiv> 2"

section \<open>Signal slices\<close>

text \<open>
  A Migen slice \<open>x[lo:hi]\<close> read into a signal of width \<open>hi - lo\<close>: the bits of \<open>x\<close>
  from \<open>lo\<close> upwards, cut to the width of the result type.
\<close>

definition bits_from :: "nat \<Rightarrow> 'a::len word \<Rightarrow> 'b::len word" where
  "bits_from lo x = ucast (drop_bit lo x)"

text \<open>
  A Migen slice assignment \<open>x[lo:lo+8].eq(d)\<close>: the eight bits from \<open>lo\<close> are replaced by
  the byte, the other bits keep their value.
\<close>

definition set_byte :: "nat \<Rightarrow> 8 word \<Rightarrow> 'a::len word \<Rightarrow> 'a word" where
  "set_byte lo d x = (x AND NOT (push_bit lo (mask 8))) OR push_bit lo (ucast d)"

section \<open>SDCtrl: the control state machine (sdphy.py, lines 44-322)\<close>

datatype ctrl_state =
  IDLE | CFG_TIMEOUT_DATA | CFG_TIMEOUT_CMD | CFG_BLKSIZE | CFG_VOLTAGE
  | SEND_CMD | RECV_RESP | RECV_DATA | SEND_DATA

text \<open>
  The registers of SDCtrl: the FSM state and every signal written with \<open>NextValue\<close>.
  \<open>csel\<close> is \<open>Signal(max=6)\<close>, three bits wide. \<open>crc7checker_check\<close> is the check register
  of the CRC7 checker submodule, written by the RECV_RESP state.
\<close>

record sdctrl =
  fsm :: ctrl_state
  csel :: "3 word"
  blkcnt :: "16 word"
  pos :: "2 word"
  cmddone :: bool
  datadone :: bool
  cerrtimeout :: bool
  cerrcrc_en :: bool
  derrtimeout :: bool
  derrwrite :: bool
  derrread_en :: bool
  debug :: "32 word"
  response :: "120 word"
  crc7checker_check :: "7 word"

text \<open>
  What SDCtrl reads in one clock cycle: the CSR storages and their write strobes
  (\<open>.re\<close>), the handshake signals of its two stream endpoints, and the outputs of the
  CRC submodules (sdcard.core.crcgeneric and sdcard.core.crcchecker), which are taken as
  inputs of the cycle.
\<close>

record sdctrl_in =
  argument :: "32 word"
  command :: "32 word"
  datatimeout :: "32 word"
  cmdtimeout :: "32 word"
  voltage :: "8 word"
  blocksize :: "16 word"
  blockcount :: "16 word"
  datatimeout_re :: bool
  cmdtimeout_re :: bool
  voltage_re :: bool
  blocksize_re :: bool
  command_re :: bool
  source_ready :: bool
  sink_valid :: bool
  sink_data :: "8 word"
  sink_ctrl :: "8 word"
  sink_last :: bool
  crc7_crc :: "7 word"
  crc7checker_valid :: bool
  crc16_source_valid :: bool
  crc16_source_data :: "8 word"
  crc16_source_last :: bool
  crc16checker_sink_ready :: bool
  crc16checker_valid :: bool

text \<open>Reset values: every signal 0 except \<open>cmddone\<close> and \<open>datadone\<close> (\<open>reset=1\<close>).\<close>

definition sdctrl_reset :: sdctrl where
  "sdctrl_reset = \<lparr> fsm = IDLE, csel = 0, blkcnt = 0, pos = 0,
     cmddone = True, datadone = True, cerrtimeout = False, cerrcrc_en = False,
     derrtimeout = False, derrwrite = False, derrread_en = False,
     debug = 0, response = 0, crc7checker_check = 0 \<rparr>"

subsection \<open>Combinational signals\<close>

definition waitresp :: "sdctrl_in \<Rightarrow> 2 word" where
  "waitresp i = bits_from 0 (command i)"

definition dataxfer :: "sdctrl_in \<Rightarrow> 2 word" where
  "dataxfer i = bits_from 5 (command i)"

definition status :: "sdctrl_in \<Rightarrow> 4 word" where
  "status i = bits_from 1 (sink_ctrl i)"

text \<open>\<open>Cat(cmddone, C(0, 1), cerrtimeout, cerrcrc_en & ~crc7checker.valid)\<close>\<close>

definition cmdevt_status :: "sdctrl \<Rightarrow> sdctrl_in \<Rightarrow> 32 word" where
  "cmdevt_status s i =
     of_bool (cmddone s) OR push_bit 2 (of_bool (cerrtimeout s))
       OR push_bit 3 (of_bool (cerrcrc_en s \<and> \<not> crc7checker_valid i))"

text \<open>\<open>Cat(datadone, derrwrite, derrtimeout, derrread_en & ~crc16checker.valid)\<close>\<close>

definition dataevt_status :: "sdctrl \<Rightarrow> sdctrl_in \<Rightarrow> 32 word" where
  "dataevt_status s i =
     of_bool (datadone s) OR push_bit 1 (of_bool (derrwrite s))
       OR push_bit 2 (of_bool (derrtimeout s))
       OR push_bit 3 (of_bool (derrread_en s \<and> \<not> crc16checker_valid i))"

text \<open>The three fields of the control tag, per state; a signal no state drives is 0.\<close>

definition cmddata :: "sdctrl \<Rightarrow> bool" where
  "cmddata s = (case fsm s of
       SEND_CMD \<Rightarrow> SDCARD_STREAM_CMD
     | RECV_RESP \<Rightarrow> SDCARD_STREAM_CMD
     | RECV_DATA \<Rightarrow> SDCARD_STREAM_DATA
     | SEND_DATA \<Rightarrow> SDCARD_STREAM_DATA
     | _ \<Rightarrow> False)"

definition rdwr :: "sdctrl \<Rightarrow> bool" where
  "rdwr s = (case fsm s of
       SEND_CMD \<Rightarrow> SDCARD_STREAM_WRITE
     | RECV_RESP \<Rightarrow> SDCARD_STREAM_READ
     | RECV_DATA \<Rightarrow> SDCARD_STREAM_READ
     | SEND_DATA \<Rightarrow> SDCARD_STREAM_WRITE
     | _ \<Rightarrow> False)"

definition mode :: "sdctrl \<Rightarrow> 6 word" where
  "mode s = (case fsm s of
       CFG_TIMEOUT_DATA \<Rightarrow> SDCARD_STREAM_CFG_TIMEOUT_DATA_HH + ucast (pos s)
     | CFG_TIMEOUT_CMD \<Rightarrow> SDCARD_STREAM_CFG_TIMEOUT_CMD_HH + ucast (pos s)
     | CFG_BLKSIZE \<Rightarrow>
         (if pos s = 0 \<or> pos s = 1 then SDCARD_STREAM_CFG_BLKSIZE_H + ucast (pos s) else 0)
     | CFG_VOLTAGE \<Rightarrow> SDCARD_STREAM_CFG_VOLTAGE
     | _ \<Rightarrow> SDCARD_STREAM_XFER)"

text \<open>\<open>self.source.ctrl.eq(Cat(cmddata, rdwr, mode))\<close>\<close>

definition source_ctrl :: "sdctrl \<Rightarrow> 8 word" where
  "source_ctrl s =
     of_bool (cmddata s) OR push_bit 1 (of_bool (rdwr s)) OR push_bit 2 (ucast (mode s))"

text \<open>
  \<open>ccases\<close>: the six bytes of a command. 0: \<open>Cat(command[8:14], 1, 0)\<close>; 1 to 4: the
  argument, most significant byte first; 5: \<open>Cat(1, crc7.crc)\<close>.
\<close>

definition ccases_data :: "3 word \<Rightarrow> sdctrl_in \<Rightarrow> 8 word" where
  "ccases_data c i =
     (if c = 0 then ucast (bits_from 8 (command i) :: 6 word) OR push_bit 6 1
      else if c = 1 then bits_from 24 (argument i)
      else if c = 2 then bits_from 16 (argument i)
      else if c = 3 then bits_from 8 (argument i)
      else if c = 4 then bits_from 0 (argument i)
      else if c = 5 then 1 OR push_bit 1 (ucast (crc7_crc i))
      else 0)"

definition source_valid :: "sdctrl \<Rightarrow> sdctrl_in \<Rightarrow> bool" where
  "source_valid s i = (case fsm s of
       IDLE \<Rightarrow> False
     | SEND_DATA \<Rightarrow> crc16_source_valid i
     | _ \<Rightarrow> True)"

definition source_data :: "sdctrl \<Rightarrow> sdctrl_in \<Rightarrow> 8 word" where
  "source_data s i = (case fsm s of
       IDLE \<Rightarrow> 0
     | CFG_TIMEOUT_DATA \<Rightarrow> bits_from (24 - 8 * unat (pos s)) (datatimeout i)
     | CFG_TIMEOUT_CMD \<Rightarrow> bits_from (24 - 8 * unat (pos s)) (cmdtimeout i)
     | CFG_BLKSIZE \<Rightarrow>
         (if pos s = 0 \<or> pos s = 1 then bits_from (8 - 8 * unat (pos s)) (blocksize i) else 0)
     | CFG_VOLTAGE \<Rightarrow> bits_from 0 (voltage i)
     | SEND_CMD \<Rightarrow> ccases_data (csel s) i
     | RECV_RESP \<Rightarrow>
         (if waitresp i = SDCARD_CTRL_RESPONSE_SHORT then 5
          else if waitresp i = SDCARD_CTRL_RESPONSE_LONG then 16
          else 0)
     | RECV_DATA \<Rightarrow> 0
     | SEND_DATA \<Rightarrow> crc16_source_data i)"

definition source_last :: "sdctrl \<Rightarrow> sdctrl_in \<Rightarrow> bool" where
  "source_last s i = (case fsm s of
       SEND_CMD \<Rightarrow> csel s = 5 \<and> waitresp i = SDCARD_CTRL_RESPONSE_NONE
     | RECV_RESP \<Rightarrow> dataxfer i = SDCARD_CTRL_DATA_TRANSFER_NONE
     | RECV_DATA \<Rightarrow> blockcount i = blkcnt s
     | SEND_DATA \<Rightarrow> crc16_source_last i
     | _ \<Rightarrow> False)"

text \<open>
  In RECV_DATA the sink is wired to the CRC16 checker while the frame is a data frame of
  status OK; the later assignment of the TIMEOUT branch overrides \<open>sink.ready\<close>.
\<close>

definition recv_data_forward :: "sdctrl_in \<Rightarrow> bool" where
  "recv_data_forward i \<longleftrightarrow>
     bit (sink_ctrl i) 0 = SDCARD_STREAM_DATA \<and> status i = SDCARD_STREAM_STATUS_OK"




definition crc16checker_sink_last :: "sdctrl \<Rightarrow> sdctrl_in \<Rightarrow> bool" where
  "crc16checker_sink_last s i \<longleftrightarrow> fsm s = RECV_DATA \<and> recv_data_forward i \<and> sink_last i"

text \<open>\<open>self.crc16.source.ready.eq(self.source.ready)\<close>, in SEND_DATA only.\<close>

definition crc16_source_ready :: "sdctrl \<Rightarrow> sdctrl_in \<Rightarrow> bool" where
  "crc16_source_ready s i \<longleftrightarrow> fsm s = SEND_DATA \<and> source_ready i"

subsection \<open>The synchronous step, one definition per FSM state\<close>

definition act_IDLE :: "sdctrl \<Rightarrow> sdctrl_in \<Rightarrow> sdctrl" where
  "act_IDLE s i =
     (let s = s\<lparr>pos := 0\<rparr> in
      if datatimeout_re i then s\<lparr>fsm := CFG_TIMEOUT_DATA\<rparr>
      else if cmdtimeout_re i then s\<lparr>fsm := CFG_TIMEOUT_CMD\<rparr>
      else if voltage_re i then s\<lparr>fsm := CFG_VOLTAGE\<rparr>
      else if blocksize_re i then s\<lparr>fsm := CFG_BLKSIZE\<rparr>
      else if command_re i then
        s\<lparr>cmddone := False, cerrtimeout := False, cerrcrc_en := False,
          datadone := False, derrtimeout := False, derrwrite := False,
          derrread_en := False, debug := 0, response := 0, fsm := SEND_CMD\<rparr>
      else s)"

definition act_CFG_TIMEOUT_DATA :: "sdctrl \<Rightarrow> sdctrl_in \<Rightarrow> sdctrl" where
  "act_CFG_TIMEOUT_DATA s i =
     (if source_valid s i \<and> source_ready i then
        (let s' = s\<lparr>pos := pos s + 1\<rparr> in
         if pos s = 3 then s'\<lparr>fsm := IDLE\<rparr> else s')
      else s)"

definition act_CFG_TIMEOUT_CMD :: "sdctrl \<Rightarrow> sdctrl_in \<Rightarrow> sdctrl" where
  "act_CFG_TIMEOUT_CMD s i =
     (if source_valid s i \<and> source_ready i then
        (let s' = s\<lparr>pos := pos s + 1\<rparr> in
         if pos s = 3 then s'\<lparr>fsm := IDLE\<rparr> else s')
      else s)"

definition act_CFG_BLKSIZE :: "sdctrl \<Rightarrow> sdctrl_in \<Rightarrow> sdctrl" where
  "act_CFG_BLKSIZE s i =
     (if source_valid s i \<and> source_ready i then
        (let s' = s\<lparr>pos := pos s + 1\<rparr> in
         if pos s = 1 then s'\<lparr>fsm := IDLE\<rparr> else s')
      else s)"

definition act_CFG_VOLTAGE :: "sdctrl \<Rightarrow> sdctrl_in \<Rightarrow> sdctrl" where
  "act_CFG_VOLTAGE s i =
     (if source_valid s i \<and> source_ready i then s\<lparr>fsm := IDLE\<rparr> else s)"

definition act_SEND_CMD :: "sdctrl \<Rightarrow> sdctrl_in \<Rightarrow> sdctrl" where
  "act_SEND_CMD s i =
     (if source_valid s i \<and> source_ready i then
        (if csel s < 5 then s\<lparr>csel := csel s + 1\<rparr>
         else
           (let s' = s\<lparr>csel := 0\<rparr> in
            if waitresp i = SDCARD_CTRL_RESPONSE_NONE
            then s'\<lparr>cmddone := True, fsm := IDLE\<rparr>
            else s'\<lparr>cerrcrc_en := True, fsm := RECV_RESP\<rparr>))
      else s)"

definition act_RECV_RESP :: "sdctrl \<Rightarrow> sdctrl_in \<Rightarrow> sdctrl" where
  "act_RECV_RESP s i =
     (if sink_valid i then
        (if bit (sink_ctrl i) 0 = SDCARD_STREAM_CMD then
           (if status i = SDCARD_STREAM_STATUS_TIMEOUT then
              s\<lparr>cerrtimeout := True, cmddone := True, datadone := True, fsm := IDLE\<rparr>
            else if sink_last i then
              (let s' = s\<lparr>crc7checker_check := bits_from 1 (sink_data i), cmddone := True\<rparr> in
               if dataxfer i = SDCARD_CTRL_DATA_TRANSFER_READ
               then s'\<lparr>derrread_en := True, fsm := RECV_DATA\<rparr>
               else if dataxfer i = SDCARD_CTRL_DATA_TRANSFER_WRITE
               then s'\<lparr>fsm := SEND_DATA\<rparr>
               else s'\<lparr>datadone := True, fsm := IDLE\<rparr>)
            else
              s\<lparr>response := ucast (sink_data i) OR push_bit 8 (response s)\<rparr>)
         else s)
      else s)"

definition act_RECV_DATA :: "sdctrl \<Rightarrow> sdctrl_in \<Rightarrow> sdctrl" where
  "act_RECV_DATA s i =
     (if sink_valid i \<and> status i = SDCARD_STREAM_STATUS_TIMEOUT then
        s\<lparr>derrtimeout := True, blkcnt := 0, datadone := True, fsm := IDLE\<rparr>
      else if source_valid s i \<and> source_ready i then
        (if blockcount i > blkcnt s then s\<lparr>blkcnt := blkcnt s + 1\<rparr>
         else s\<lparr>blkcnt := 0, datadone := True, fsm := IDLE\<rparr>)
      else s)"

definition act_SEND_DATA :: "sdctrl \<Rightarrow> sdctrl_in \<Rightarrow> sdctrl" where
  "act_SEND_DATA s i =
     (let s1 =
        (if crc16_source_valid i \<and> crc16_source_last i \<and> crc16_source_ready s i then
           (if blockcount i > blkcnt s then s\<lparr>blkcnt := blkcnt s + 1\<rparr>
            else s\<lparr>blkcnt := 0, datadone := True, fsm := IDLE\<rparr>)
         else s)
      in
        if sink_valid i then
          (let s2 = s1\<lparr>debug := ucast (status i)\<rparr> in
           if status i \<noteq> SDCARD_STREAM_STATUS_DATAACCEPTED
           then s2\<lparr>derrwrite := True\<rparr> else s2)
        else s1)"

definition sdctrl_step :: "sdctrl \<Rightarrow> sdctrl_in \<Rightarrow> sdctrl" where
  "sdctrl_step s i = (case fsm s of
       IDLE \<Rightarrow> act_IDLE s i
     | CFG_TIMEOUT_DATA \<Rightarrow> act_CFG_TIMEOUT_DATA s i
     | CFG_TIMEOUT_CMD \<Rightarrow> act_CFG_TIMEOUT_CMD s i
     | CFG_BLKSIZE \<Rightarrow> act_CFG_BLKSIZE s i
     | CFG_VOLTAGE \<Rightarrow> act_CFG_VOLTAGE s i
     | SEND_CMD \<Rightarrow> act_SEND_CMD s i
     | RECV_RESP \<Rightarrow> act_RECV_RESP s i
     | RECV_DATA \<Rightarrow> act_RECV_DATA s i
     | SEND_DATA \<Rightarrow> act_SEND_DATA s i)"

text \<open>Running the machine over the inputs of successive clock cycles.\<close>

fun sdctrl_run :: "sdctrl \<Rightarrow> sdctrl_in list \<Rightarrow> sdctrl" where
  "sdctrl_run s [] = s"
| "sdctrl_run s (i # is) = sdctrl_run (sdctrl_step s i) is"

text \<open>
  The frames SDCtrl hands over, in order: a frame is handed over in a cycle where
  \<open>source.valid\<close> and \<open>source.ready\<close> are both high. A frame is its payload byte and its
  control tag.
\<close>

type_synonym frame = "8 word \<times> 8 word"

fun sdctrl_frames :: "sdctrl \<Rightarrow> sdctrl_in list \<Rightarrow> frame list" where
  "sdctrl_frames s [] = []"
| "sdctrl_frames s (i # is) =
     (if source_valid s i \<and> source_ready i then [(source_data s i, source_ctrl s)] else [])
       @ sdctrl_frames (sdctrl_step s i) is"

section \<open>SDPHYCFG: the configuration latch (sdphy.py, lines 324-356)\<close>

text \<open>\<open>cfgvoltage\<close> is \<open>Signal()\<close>: one bit.\<close>

record sdphycfg =
  cfgdtimeout :: "32 word"
  cfgctimeout :: "32 word"
  cfgblksize :: "16 word"
  cfgvoltage :: "1 word"

definition sdphycfg_reset :: sdphycfg where
  "sdphycfg_reset = \<lparr> cfgdtimeout = 0, cfgctimeout = 0, cfgblksize = 0, cfgvoltage = 0 \<rparr>"

text \<open>\<open>cfgcases\<close>, the table the two loops build, written out; a mode without a case changes nothing.\<close>

definition cfgcases :: "6 word \<Rightarrow> 8 word \<Rightarrow> sdphycfg \<Rightarrow> sdphycfg" where
  "cfgcases m d c =
     (if m = SDCARD_STREAM_CFG_TIMEOUT_DATA_HH then c\<lparr>cfgdtimeout := set_byte 24 d (cfgdtimeout c)\<rparr>
      else if m = SDCARD_STREAM_CFG_TIMEOUT_DATA_HL then c\<lparr>cfgdtimeout := set_byte 16 d (cfgdtimeout c)\<rparr>
      else if m = SDCARD_STREAM_CFG_TIMEOUT_DATA_LH then c\<lparr>cfgdtimeout := set_byte 8 d (cfgdtimeout c)\<rparr>
      else if m = SDCARD_STREAM_CFG_TIMEOUT_DATA_LL then c\<lparr>cfgdtimeout := set_byte 0 d (cfgdtimeout c)\<rparr>
      else if m = SDCARD_STREAM_CFG_TIMEOUT_CMD_HH then c\<lparr>cfgctimeout := set_byte 24 d (cfgctimeout c)\<rparr>
      else if m = SDCARD_STREAM_CFG_TIMEOUT_CMD_HL then c\<lparr>cfgctimeout := set_byte 16 d (cfgctimeout c)\<rparr>
      else if m = SDCARD_STREAM_CFG_TIMEOUT_CMD_LH then c\<lparr>cfgctimeout := set_byte 8 d (cfgctimeout c)\<rparr>
      else if m = SDCARD_STREAM_CFG_TIMEOUT_CMD_LL then c\<lparr>cfgctimeout := set_byte 0 d (cfgctimeout c)\<rparr>
      else if m = SDCARD_STREAM_CFG_BLKSIZE_H then c\<lparr>cfgblksize := set_byte 8 d (cfgblksize c)\<rparr>
      else if m = SDCARD_STREAM_CFG_BLKSIZE_L then c\<lparr>cfgblksize := set_byte 0 d (cfgblksize c)\<rparr>
      else if m = SDCARD_STREAM_CFG_VOLTAGE then c\<lparr>cfgvoltage := bits_from 0 d\<rparr>
      else c)"

text \<open>The synchronous step: \<open>If(self.sink.valid, Case(mode, cfgcases))\<close> with \<open>mode = sink.ctrl[2:8]\<close>.\<close>

definition sdphycfg_step :: "sdphycfg \<Rightarrow> bool \<Rightarrow> frame \<Rightarrow> sdphycfg" where
  "sdphycfg_step c valid f =
     (if valid then cfgcases (bits_from 2 (snd f)) (fst f) c else c)"

definition sdphycfg_sink_ready :: "bool \<Rightarrow> bool" where
  "sdphycfg_sink_ready valid = valid"

text \<open>
  SDPHY (lines 671-702) connects its sink to the latch while the frame's mode is not XFER.
  The frames arrive in the order SDCtrl handed them over.
\<close>

definition sdphy_cfg_deliver :: "sdphycfg \<Rightarrow> frame \<Rightarrow> sdphycfg" where
  "sdphy_cfg_deliver c f =
     sdphycfg_step c ((bits_from 2 (snd f) :: 6 word) \<noteq> SDCARD_STREAM_XFER) f"

fun sdphy_cfg_run :: "sdphycfg \<Rightarrow> frame list \<Rightarrow> sdphycfg" where
  "sdphy_cfg_run c [] = c"
| "sdphy_cfg_run c (f # fs) = sdphy_cfg_run (sdphy_cfg_deliver c f) fs"

section \<open>SDPHYCMDRFB: the bit sampler (sdphy.py, lines 372-420)\<close>








section \<open>The FIFO between the sampler and the command reader\<close>





section \<open>SDPHYCMDR: the command reader (sdphy.py, lines 422-524)\<close>

datatype cmdr_state = R_IDLE | CMD_READSTART | CMD_READ | CMD_CLK8 | TIMEOUT

record cmdr_regs =
  cmdr_fsm :: cmdr_state
  ctimeout :: "32 word"
  cread :: "8 word"
  ctoread :: "8 word"
  cnt :: "8 word"

record cmdr_in =
  cmdr_sink_valid :: bool
  cmdr_sink_data :: "8 word"
  cmdr_sink_last :: bool
  cmdr_source_ready :: bool
  pads_cmd_i :: bool

definition cmdr_regs_reset :: cmdr_regs where
  "cmdr_regs_reset = \<lparr> cmdr_fsm = R_IDLE, ctimeout = 0, cread = 0, ctoread = 0, cnt = 0 \<rparr>"


text \<open>The outputs of the reader; \<open>fv\<close> and \<open>fd\<close> are \<open>fifo.source.valid\<close> and \<open>fifo.source.data\<close>.\<close>

definition cmdr_source_valid :: "cmdr_regs \<Rightarrow> bool \<Rightarrow> bool" where
  "cmdr_source_valid r fv = (case cmdr_fsm r of
       CMD_READ \<Rightarrow> fv
     | TIMEOUT \<Rightarrow> True
     | _ \<Rightarrow> False)"






text \<open>The FSM of the reader; \<open>cfg\<close> is the configuration latch it was built with.\<close>

definition cmdr_fsm_step :: "sdphycfg \<Rightarrow> cmdr_regs \<Rightarrow> cmdr_in \<Rightarrow> bool \<Rightarrow> cmdr_regs" where
  "cmdr_fsm_step cfg r i fv = (case cmdr_fsm r of
       R_IDLE \<Rightarrow>
         (if cmdr_sink_valid i
          then r\<lparr>ctimeout := 0, cread := 0, ctoread := cmdr_sink_data i, cmdr_fsm := CMD_READSTART\<rparr>
          else r)
     | CMD_READSTART \<Rightarrow>
         (let r' = r\<lparr>ctimeout := ctimeout r + 1\<rparr> in
          if fv then r'\<lparr>cmdr_fsm := CMD_READ\<rparr>
          else if ctimeout r > cfgctimeout cfg then r'\<lparr>cmdr_fsm := TIMEOUT\<rparr>
          else r')
     | CMD_READ \<Rightarrow>
         (if cmdr_source_valid r fv \<and> cmdr_source_ready i then
            (let r' = r\<lparr>cread := cread r + 1\<rparr> in
             if cread r = ctoread r then
               (if cmdr_sink_last i then r'\<lparr>cmdr_fsm := CMD_CLK8\<rparr> else r'\<lparr>cmdr_fsm := R_IDLE\<rparr>)
             else r')
          else r)
     | CMD_CLK8 \<Rightarrow>
         (if cnt r < 7 then r\<lparr>cnt := cnt r + 1\<rparr> else r\<lparr>cnt := 0, cmdr_fsm := R_IDLE\<rparr>)
     | TIMEOUT \<Rightarrow>
         (if cmdr_source_valid r fv \<and> cmdr_source_ready i then r\<lparr>cmdr_fsm := R_IDLE\<rparr> else r))"

text \<open>Waiting with no byte in the FIFO: \<open>fifo.source.valid\<close> is low in every cycle.\<close>

fun cmdr_wait :: "sdphycfg \<Rightarrow> cmdr_regs \<Rightarrow> cmdr_in list \<Rightarrow> cmdr_regs" where
  "cmdr_wait cfg r [] = r"
| "cmdr_wait cfg r (i # is) = cmdr_wait cfg (cmdr_fsm_step cfg r i False) is"





section \<open>Auxiliary notions for the statements\<close>

text \<open>
  The command write is accepted in IDLE when \<open>command.re\<close> is high and none of the four
  configuration strobes, which come first in the \<open>If/Elif\<close> chain, is.
\<close>

definition cmd_accept :: "sdctrl \<Rightarrow> sdctrl_in \<Rightarrow> bool" where
  "cmd_accept s i \<longleftrightarrow> fsm s = IDLE \<and> \<not> datatimeout_re i \<and> \<not> cmdtimeout_re i
     \<and> \<not> voltage_re i \<and> \<not> blocksize_re i \<and> command_re i"

definition cfg_or_idle :: "ctrl_state \<Rightarrow> bool" where
  "cfg_or_idle st \<longleftrightarrow> st = IDLE \<or> st = CFG_TIMEOUT_DATA \<or> st = CFG_TIMEOUT_CMD
     \<or> st = CFG_BLKSIZE \<or> st = CFG_VOLTAGE"

definition no_resp_inv :: "sdctrl \<Rightarrow> bool" where
  "no_resp_inv s \<longleftrightarrow> \<not> cerrcrc_en s \<and> (cfg_or_idle (fsm s) \<or> fsm s = SEND_CMD)"

text \<open>
  Outside the two data states the block counter is 0; from the command write to the end
  of the command cycle \<open>datadone\<close> is clear, and so is \<open>derrwrite\<close> before SEND_DATA.
\<close>

definition data_phase_inv :: "sdctrl \<Rightarrow> bool" where
  "data_phase_inv s \<longleftrightarrow>
     (fsm s = RECV_DATA \<or> fsm s = SEND_DATA \<or> blkcnt s = 0)
     \<and> (cfg_or_idle (fsm s) \<or> \<not> datadone s)
     \<and> (cfg_or_idle (fsm s) \<or> fsm s = SEND_DATA \<or> \<not> derrwrite s)"



text \<open>
  In SEND_DATA a block is complete in the cycle where the CRC16 generator offers its last
  byte and the byte is accepted.
\<close>

definition block_sent :: "sdctrl_in \<Rightarrow> bool" where
  "block_sent i \<longleftrightarrow> crc16_source_valid i \<and> crc16_source_last i \<and> source_ready i"

text \<open>An acknowledgement byte whose status is not DATA_ACCEPTED.\<close>

definition ack_error :: "sdctrl_in \<Rightarrow> bool" where
  "ack_error i \<longleftrightarrow> sink_valid i \<and> status i \<noteq> SDCARD_STREAM_STATUS_DATAACCEPTED"


text \<open>
  The frames a configuration state hands over for a register value: each byte of the
  value, most significant first, with the tag \<open>Cat(0, 0, mode)\<close> of its mode, that is the
  mode shifted left by two.
\<close>

definition dt_frames :: "32 word \<Rightarrow> frame list" where
  "dt_frames v =
     [(bits_from 24 v, 20), (bits_from 16 v, 24), (bits_from 8 v, 28), (bits_from 0 v, 32)]"

definition ct_frames :: "32 word \<Rightarrow> frame list" where
  "ct_frames v =
     [(bits_from 24 v, 4), (bits_from 16 v, 8), (bits_from 8 v, 12), (bits_from 0 v, 16)]"

definition blk_frames :: "16 word \<Rightarrow> frame list" where
  "blk_frames v = [(bits_from 8 v, 36), (bits_from 0 v, 40)]"

definition volt_frames :: "8 word \<Rightarrow> frame list" where
  "volt_frames v = [(bits_from 0 v, 44)]"

subsection \<open>Concrete inputs\<close>

text \<open>A cycle in which every input signal is low.\<close>

definition quiet :: sdctrl_in where
  "quiet = \<lparr> argument = 0, command = 0, datatimeout = 0, cmdtimeout = 0, voltage = 0,
     blocksize = 0, blockcount = 0, datatimeout_re = False, cmdtimeout_re = False,
     voltage_re = False, blocksize_re = False, command_re = False, source_ready = False,
     sink_valid = False, sink_data = 0, sink_ctrl = 0, sink_last = False, crc7_crc = 0,
     crc7checker_valid = False, crc16_source_valid = False, crc16_source_data = 0,
     crc16_source_last = False, crc16checker_sink_ready = False, crc16checker_valid = False \<rparr>"

text \<open>The write of command 0 (GO_IDLE_STATE): response kind NONE, no data transfer.\<close>

definition cmd0_write :: sdctrl_in where
  "cmd0_write = quiet\<lparr>command_re := True\<rparr>"

definition accept_byte :: sdctrl_in where
  "accept_byte = quiet\<lparr>source_ready := True\<rparr>"

text \<open>
  A command register of 33: response kind SHORT (bits 0 and 1 hold 1), data transfer READ
  (bits 5 and 6 hold 1). The trace writes the command, hands the six command bytes over
  (the machine is then in RECV_RESP) and receives a last response byte of status OK: the
  machine is then in RECV_DATA.
\<close>

definition read_cmd :: sdctrl_in where
  "read_cmd = quiet\<lparr>command := 33\<rparr>"

definition read_cmd_sent :: "sdctrl_in list" where
  "read_cmd_sent =
     [read_cmd\<lparr>command_re := True\<rparr>,
      read_cmd\<lparr>source_ready := True\<rparr>, read_cmd\<lparr>source_ready := True\<rparr>,
      read_cmd\<lparr>source_ready := True\<rparr>, read_cmd\<lparr>source_ready := True\<rparr>,
      read_cmd\<lparr>source_ready := True\<rparr>, read_cmd\<lparr>source_ready := True\<rparr>]"

definition read_resp_last :: sdctrl_in where
  "read_resp_last = read_cmd\<lparr>sink_valid := True, sink_last := True\<rparr>"

definition read_cmd_trace :: "sdctrl_in list" where
  "read_cmd_trace = read_cmd_sent @ [read_resp_last]"

text \<open>A frame of status TIMEOUT: bits 1 to 4 of the tag hold 1.\<close>

definition timeout_frame :: sdctrl_in where
  "timeout_frame =
     read_cmd\<lparr>sink_valid := True, sink_ctrl := 2, source_ready := True, blockcount := 7\<rparr>"





text \<open>
  A command register of 65: response kind SHORT, data transfer WRITE; block count 1. The
  trace leads to SEND_DATA. \<open>block_end\<close> is the accepted last byte of a block;
  \<open>ack_write_error\<close> is an acknowledgement of status WRITE_ERROR (6, in bits 1 to 4).
\<close>

definition write_cmd :: sdctrl_in where
  "write_cmd = quiet\<lparr>command := 65, blockcount := 1\<rparr>"

definition write_cmd_sent :: "sdctrl_in list" where
  "write_cmd_sent =
     [write_cmd\<lparr>command_re := True\<rparr>,
      write_cmd\<lparr>source_ready := True\<rparr>, write_cmd\<lparr>source_ready := True\<rparr>,
      write_cmd\<lparr>source_ready := True\<rparr>, write_cmd\<lparr>source_ready := True\<rparr>,
      write_cmd\<lparr>source_ready := True\<rparr>, write_cmd\<lparr>source_ready := True\<rparr>]"

definition write_resp_last :: sdctrl_in where
  "write_resp_last = write_cmd\<lparr>sink_valid := True, sink_last := True\<rparr>"

definition write_cmd_trace :: "sdctrl_in list" where
  "write_cmd_trace = write_cmd_sent @ [write_resp_last]"

definition block_end :: sdctrl_in where
  "block_end = write_cmd\<lparr>crc16_source_valid := True, crc16_source_last := True,
     source_ready := True\<rparr>"

definition ack_write_error :: sdctrl_in where
  "ack_write_error = write_cmd\<lparr>sink_valid := True, sink_ctrl := 12\<rparr>"

text \<open>
  Inputs of the command reader: an idle cycle with the command line high, and a pending
  read request for a short response (read length 5).
\<close>

definition cmdr_quiet :: cmdr_in where
  "cmdr_quiet = \<lparr> cmdr_sink_valid = False, cmdr_sink_data = 0, cmdr_sink_last = False,
     cmdr_source_ready = False, pads_cmd_i = True \<rparr>"

definition read_req :: cmdr_in where
  "read_req = cmdr_quiet\<lparr>cmdr_sink_valid := True, cmdr_sink_data := 5\<rparr>"


definition cfg2 :: sdphycfg where
  "cfg2 = sdphycfg_reset\<lparr>cfgctimeout := 2\<rparr>"



text \<open>
  Configuration writes: block size 512, data timeout 0x12345678, voltage 1; and a voltage
  register holding 2.
\<close>

definition blk512 :: sdctrl_in where
  "blk512 = quiet\<lparr>blocksize := 512, datatimeout := 305419896, voltage := 1\<rparr>"

definition blk512_ready :: sdctrl_in where
  "blk512_ready = blk512\<lparr>source_ready := True\<rparr>"

definition volt2 :: sdctrl_in where
  "volt2 = quiet\<lparr>voltage := 2\<rparr>"

section \<open>Basic facts\<close>

lemmas act_defs = act_IDLE_def act_CFG_TIMEOUT_DATA_def act_CFG_TIMEOUT_CMD_def
  act_CFG_BLKSIZE_def act_CFG_VOLTAGE_def act_SEND_CMD_def act_RECV_RESP_def
  act_RECV_DATA_def act_SEND_DATA_def

lemma cmdevt_bit0: "bit (cmdevt_status s i) 0 \<longleftrightarrow> cmddone s"
  by (simp add: cmdevt_status_def bit_simps)

lemma cmdevt_bit2: "bit (cmdevt_status s i) 2 \<longleftrightarrow> cerrtimeout s"
  by (simp add: cmdevt_status_def bit_simps)

lemma cmdevt_bit3: "bit (cmdevt_status s i) 3 \<longleftrightarrow> cerrcrc_en s \<and> \<not> crc7checker_valid i"
  by (simp add: cmdevt_status_def bit_simps)

lemma dataevt_bit0: "bit (dataevt_status s i) 0 \<longleftrightarrow> datadone s"
  by (simp add: dataevt_status_def bit_simps)

lemma dataevt_bit1: "bit (dataevt_status s i) 1 \<longleftrightarrow> derrwrite s"
  by (simp add: dataevt_status_def bit_simps)

lemma dataevt_bit2: "bit (dataevt_status s i) 2 \<longleftrightarrow> derrtimeout s"
  by (simp add: dataevt_status_def bit_simps)

lemma dataevt_bit3: "bit (dataevt_status s i) 3 \<longleftrightarrow> derrread_en s \<and> \<not> crc16checker_valid i"
  by (simp add: dataevt_status_def bit_simps)

lemma sdctrl_run_append: "sdctrl_run s (xs @ ys) = sdctrl_run (sdctrl_run s xs) ys"
  by (induction xs arbitrary: s) simp_all


lemma unat_inc_less:
  fixes x y :: "'a::len word"
  assumes "x < y"
  shows "unat (x + 1) = Suc (unat x)"
proof -
  from assms have "unat x < unat y" by (simp add: word_less_nat_alt)
  moreover have "unat y < 2 ^ LENGTH('a)" by (rule unsigned_less)
  ultimately have "Suc (unat x) < 2 ^ LENGTH('a)" by linarith
  then show ?thesis by (simp add: unat_word_ariths)
qed

lemma cmd_accept_step:
  assumes "cmd_accept s i"
  shows "sdctrl_step s i = s\<lparr>pos := 0, cmddone := False, cerrtimeout := False, cerrcrc_en := False,
          datadone := False, derrtimeout := False, derrwrite := False,
          derrread_en := False, debug := 0, response := 0, fsm := SEND_CMD\<rparr>"
  using assms by (simp add: cmd_accept_def sdctrl_step_def act_IDLE_def)

lemma read_cmd_trace_state:
  "sdctrl_run sdctrl_reset read_cmd_trace =
     sdctrl_reset\<lparr>fsm := RECV_DATA, cmddone := True, datadone := False, cerrcrc_en := True,
       derrread_en := True\<rparr>"
  by (simp add: read_cmd_trace_def read_cmd_sent_def read_resp_last_def read_cmd_def quiet_def sdctrl_reset_def sdctrl_step_def
      act_IDLE_def act_SEND_CMD_def act_RECV_RESP_def source_valid_def waitresp_def dataxfer_def
      status_def bits_from_def Let_def)

section \<open>Commands without a response (C1, C10)\<close>

lemma no_resp_step:
  assumes "waitresp i = SDCARD_CTRL_RESPONSE_NONE" and "no_resp_inv s"
  shows "no_resp_inv (sdctrl_step s i)"
  using assms
  by (cases "fsm s") (simp_all add: sdctrl_step_def act_defs cfg_or_idle_def no_resp_inv_def Let_def)

lemma no_resp_run:
  assumes "\<forall>i\<in>set is. waitresp i = SDCARD_CTRL_RESPONSE_NONE" and "no_resp_inv s"
  shows "no_resp_inv (sdctrl_run s is)"
  using assms
  by (induction "is" arbitrary: s) (simp_all add: no_resp_step)

text \<open>
  C1, evaluated on the code. Command 0 is written after reset and its six bytes are handed
  over. The machine is back in IDLE and \<open>cmdevt.done\<close> reads 1, but \<open>dataevt.done\<close> reads 0:
  the command write cleared \<open>datadone\<close>, and the exit of SEND_CMD for response kind NONE
  sets \<open>cmddone\<close> only.
\<close>

theorem no_response_leaves_datadone_clear:
  "fsm (sdctrl_run sdctrl_reset
      [cmd0_write, accept_byte, accept_byte, accept_byte, accept_byte, accept_byte, accept_byte]) = IDLE
   \<and> bit (cmdevt_status (sdctrl_run sdctrl_reset
      [cmd0_write, accept_byte, accept_byte, accept_byte, accept_byte, accept_byte, accept_byte]) quiet) 0
   \<and> \<not> bit (dataevt_status (sdctrl_run sdctrl_reset
      [cmd0_write, accept_byte, accept_byte, accept_byte, accept_byte, accept_byte, accept_byte]) quiet) 0"
  by (simp add: cmdevt_bit0 dataevt_bit0 sdctrl_reset_def sdctrl_step_def act_IDLE_def
      act_SEND_CMD_def source_valid_def waitresp_def bits_from_def cmd0_write_def
      accept_byte_def quiet_def)

text \<open>
  C10. After a command write is accepted, and for as long as the command register keeps
  response kind NONE, the crc-error bit of \<open>cmdevt\<close> (bit 3) reads 0 in every cycle, the
  enable flag \<open>cerrcrc_en\<close> stays clear and RECV_RESP is not entered. The input list is
  arbitrary, so the statement covers every cycle of the command.
\<close>

theorem no_response_crc_error_zero:
  assumes "cmd_accept s i0" and "\<forall>i\<in>set is. waitresp i = SDCARD_CTRL_RESPONSE_NONE"
  shows "\<not> bit (cmdevt_status (sdctrl_run (sdctrl_step s i0) is) i') 3
    \<and> \<not> cerrcrc_en (sdctrl_run (sdctrl_step s i0) is)
    \<and> fsm (sdctrl_run (sdctrl_step s i0) is) \<noteq> RECV_RESP"
proof -
  have "no_resp_inv (sdctrl_step s i0)"
    using assms(1) by (simp add: cmd_accept_step no_resp_inv_def)
  then have "no_resp_inv (sdctrl_run (sdctrl_step s i0) is)"
    using assms(2) by (intro no_resp_run)
  then show ?thesis
    by (auto simp: no_resp_inv_def cmdevt_bit3 cfg_or_idle_def)
qed

text \<open>Witness of C10: command 0 written after reset, its six bytes handed over.\<close>

theorem no_response_crc_error_zero_witness:
  "cmd_accept sdctrl_reset cmd0_write
   \<and> waitresp accept_byte = SDCARD_CTRL_RESPONSE_NONE
   \<and> \<not> bit (cmdevt_status (sdctrl_run (sdctrl_step sdctrl_reset cmd0_write)
         [accept_byte, accept_byte, accept_byte, accept_byte, accept_byte, accept_byte]) quiet) 3
   \<and> fsm (sdctrl_run (sdctrl_step sdctrl_reset cmd0_write)
         [accept_byte, accept_byte, accept_byte, accept_byte, accept_byte, accept_byte]) \<noteq> RECV_RESP"
  using no_response_crc_error_zero [of sdctrl_reset cmd0_write
      "[accept_byte, accept_byte, accept_byte, accept_byte, accept_byte, accept_byte]" quiet]
  by (simp add: cmd_accept_def sdctrl_reset_def cmd0_write_def accept_byte_def quiet_def
      waitresp_def bits_from_def)

section \<open>The event flags (C2, C9)\<close>

lemma latched_step:
  assumes "\<not> cmd_accept s i"
  shows "(cmddone s \<longrightarrow> cmddone (sdctrl_step s i))
    \<and> (cerrtimeout s \<longrightarrow> cerrtimeout (sdctrl_step s i))
    \<and> (cerrcrc_en s \<longrightarrow> cerrcrc_en (sdctrl_step s i))
    \<and> (datadone s \<longrightarrow> datadone (sdctrl_step s i))
    \<and> (derrwrite s \<longrightarrow> derrwrite (sdctrl_step s i))
    \<and> (derrtimeout s \<longrightarrow> derrtimeout (sdctrl_step s i))
    \<and> (derrread_en s \<longrightarrow> derrread_en (sdctrl_step s i))"
  using assms
  by (cases "fsm s") (auto simp: sdctrl_step_def act_defs cmd_accept_def Let_def)

text \<open>
  C2, as the code has it. The done, timeout and write-error bits are registers: in a step
  that does not accept a command write, a bit that reads 1 still reads 1 afterwards, and so
  do the two enable flags of the crc-error bits. A step that accepts a command write
  leaves both status words 0. The crc-error bits themselves are not registers: each reads
  its enable flag and the negated \<open>valid\<close> output of its CRC checker in the same cycle.
\<close>

theorem event_flags_latched:
  "(\<not> cmd_accept s i \<longrightarrow>
      (bit (cmdevt_status s i) 0 \<longrightarrow> bit (cmdevt_status (sdctrl_step s i) i') 0)
    \<and> (bit (cmdevt_status s i) 2 \<longrightarrow> bit (cmdevt_status (sdctrl_step s i) i') 2)
    \<and> (bit (dataevt_status s i) 0 \<longrightarrow> bit (dataevt_status (sdctrl_step s i) i') 0)
    \<and> (bit (dataevt_status s i) 1 \<longrightarrow> bit (dataevt_status (sdctrl_step s i) i') 1)
    \<and> (bit (dataevt_status s i) 2 \<longrightarrow> bit (dataevt_status (sdctrl_step s i) i') 2)
    \<and> (cerrcrc_en s \<longrightarrow> cerrcrc_en (sdctrl_step s i))
    \<and> (derrread_en s \<longrightarrow> derrread_en (sdctrl_step s i)))
   \<and> (cmd_accept s i \<longrightarrow>
        cmdevt_status (sdctrl_step s i) i' = 0 \<and> dataevt_status (sdctrl_step s i) i' = 0)
   \<and> (bit (cmdevt_status s i) 3 \<longleftrightarrow> cerrcrc_en s \<and> \<not> crc7checker_valid i)
   \<and> (bit (dataevt_status s i) 3 \<longleftrightarrow> derrread_en s \<and> \<not> crc16checker_valid i)"
proof -
  have accept: "cmdevt_status (sdctrl_step s i) i' = 0 \<and> dataevt_status (sdctrl_step s i) i' = 0"
    if "cmd_accept s i"
    using that by (simp add: cmd_accept_step cmdevt_status_def dataevt_status_def)
  show ?thesis
    unfolding cmdevt_bit0 cmdevt_bit2 cmdevt_bit3 dataevt_bit0 dataevt_bit1 dataevt_bit2
      dataevt_bit3
    using latched_step [of s i] accept by blast
qed

text \<open>
  Witness of C2: in RECV_DATA after the read command, a step without a command write keeps
  \<open>cmdevt.done\<close> and the enable flag; after reset, the write of command 0 clears both
  status words.
\<close>

theorem event_flags_latched_witness:
  "\<not> cmd_accept (sdctrl_run sdctrl_reset read_cmd_trace) read_cmd
   \<and> bit (cmdevt_status (sdctrl_run sdctrl_reset read_cmd_trace) read_cmd) 0
   \<and> bit (cmdevt_status (sdctrl_step (sdctrl_run sdctrl_reset read_cmd_trace) read_cmd) read_cmd) 0
   \<and> cerrcrc_en (sdctrl_run sdctrl_reset read_cmd_trace)
   \<and> cerrcrc_en (sdctrl_step (sdctrl_run sdctrl_reset read_cmd_trace) read_cmd)
   \<and> cmd_accept sdctrl_reset cmd0_write
   \<and> cmdevt_status (sdctrl_step sdctrl_reset cmd0_write) quiet = 0
   \<and> dataevt_status (sdctrl_step sdctrl_reset cmd0_write) quiet = 0"
  using event_flags_latched [of "sdctrl_run sdctrl_reset read_cmd_trace" read_cmd read_cmd]
    event_flags_latched [of sdctrl_reset cmd0_write quiet]
  unfolding read_cmd_trace_state cmdevt_bit0
  by (simp add: cmd_accept_def sdctrl_reset_def read_cmd_def cmd0_write_def quiet_def)

text \<open>
  Counterexample to C2 as stated. The machine is in RECV_DATA after the read command. While
  the CRC16 checker reports invalid, the crc-error bit of \<open>dataevt\<close> reads 1; one cycle
  later, with no command write in between, the checker reports valid and the bit reads 0.
\<close>

theorem crc_error_bit_not_latched:
  "fsm (sdctrl_run sdctrl_reset read_cmd_trace) = RECV_DATA
   \<and> \<not> cmd_accept (sdctrl_run sdctrl_reset read_cmd_trace) read_cmd
   \<and> bit (dataevt_status (sdctrl_run sdctrl_reset read_cmd_trace) read_cmd) 3
   \<and> \<not> bit (dataevt_status (sdctrl_step (sdctrl_run sdctrl_reset read_cmd_trace) read_cmd)
            (read_cmd\<lparr>crc16checker_valid := True\<rparr>)) 3"
  unfolding read_cmd_trace_state dataevt_bit3
  by (simp add: cmd_accept_def sdctrl_reset_def sdctrl_step_def act_RECV_DATA_def read_cmd_def
      quiet_def source_valid_def status_def bits_from_def)

lemma idle_done_step:
  assumes "\<not> command_re i" and "cmddone s \<and> datadone s \<and> cfg_or_idle (fsm s)"
  shows "cmddone (sdctrl_step s i) \<and> datadone (sdctrl_step s i) \<and> cfg_or_idle (fsm (sdctrl_step s i))"
  using assms
  by (cases "fsm s") (simp_all add: sdctrl_step_def act_defs cfg_or_idle_def Let_def)

lemma idle_done_run:
  assumes "\<forall>i\<in>set is. \<not> command_re i" and "cmddone s \<and> datadone s \<and> cfg_or_idle (fsm s)"
  shows "cmddone (sdctrl_run s is) \<and> datadone (sdctrl_run s is)"
  using assms
proof (induction "is" arbitrary: s)
  case Nil
  then show ?case by simp
next
  case (Cons i "is")
  from Cons.prems have "cmddone (sdctrl_step s i) \<and> datadone (sdctrl_step s i)
      \<and> cfg_or_idle (fsm (sdctrl_step s i))"
    by (intro idle_done_step) simp_all
  with Cons.IH [of "sdctrl_step s i"] Cons.prems(1) show ?case by simp
qed

text \<open>
  C9. In the reset state, and after any number of cycles in which no command has been
  written, bit 0 of \<open>cmdevt\<close> and bit 0 of \<open>dataevt\<close> read 1. The empty input list gives the
  reset state itself.
\<close>

theorem done_flags_reset_to_one:
  assumes "\<forall>i\<in>set is. \<not> command_re i"
  shows "bit (cmdevt_status (sdctrl_run sdctrl_reset is) i') 0
    \<and> bit (dataevt_status (sdctrl_run sdctrl_reset is) i') 0"
  using idle_done_run [OF assms, of sdctrl_reset]
  by (simp add: cmdevt_bit0 dataevt_bit0 sdctrl_reset_def cfg_or_idle_def)

text \<open>Witness of C9: the reset state, and the state after an idle cycle and a block-size write.\<close>

theorem done_flags_reset_to_one_witness:
  "\<not> command_re quiet \<and> \<not> command_re (quiet\<lparr>blocksize_re := True\<rparr>)
    \<and> bit (cmdevt_status (sdctrl_run sdctrl_reset [quiet, quiet\<lparr>blocksize_re := True\<rparr>]) quiet) 0
    \<and> bit (dataevt_status (sdctrl_run sdctrl_reset [quiet, quiet\<lparr>blocksize_re := True\<rparr>]) quiet) 0
    \<and> bit (cmdevt_status sdctrl_reset quiet) 0 \<and> bit (dataevt_status sdctrl_reset quiet) 0"
  using done_flags_reset_to_one [of "[quiet, quiet\<lparr>blocksize_re := True\<rparr>]" quiet]
    done_flags_reset_to_one [of "[]" quiet]
  by (simp add: quiet_def)

section \<open>Data transfers (C4, C5, C6)\<close>

text \<open>
  C6. In RECV_DATA, a valid frame of status TIMEOUT makes the step latch the timeout bit of
  \<open>dataevt\<close> (bit 2), reset \<open>blkcnt\<close> and go to IDLE, whatever the block counter and the
  other inputs are; in IDLE \<open>source.valid\<close> is low, so no further block is requested.
\<close>

theorem recv_data_timeout_aborts:
  assumes "fsm s = RECV_DATA" and "sink_valid i" and "status i = SDCARD_STREAM_STATUS_TIMEOUT"
  shows "fsm (sdctrl_step s i) = IDLE \<and> blkcnt (sdctrl_step s i) = 0
    \<and> bit (dataevt_status (sdctrl_step s i) i') 2
    \<and> \<not> source_valid (sdctrl_step s i) i'"
  using assms
  by (simp add: sdctrl_step_def act_RECV_DATA_def dataevt_bit2 source_valid_def)

text \<open>
  Witness of C6: the TIMEOUT frame arrives in RECV_DATA in a cycle where the block request
  is also accepted and blocks remain to be read.
\<close>

theorem recv_data_timeout_aborts_witness:
  "fsm (sdctrl_run sdctrl_reset read_cmd_trace) = RECV_DATA
   \<and> sink_valid timeout_frame \<and> status timeout_frame = SDCARD_STREAM_STATUS_TIMEOUT
   \<and> fsm (sdctrl_step (sdctrl_run sdctrl_reset read_cmd_trace) timeout_frame) = IDLE
   \<and> blkcnt (sdctrl_step (sdctrl_run sdctrl_reset read_cmd_trace) timeout_frame) = 0
   \<and> bit (dataevt_status (sdctrl_step (sdctrl_run sdctrl_reset read_cmd_trace) timeout_frame) quiet) 2
   \<and> \<not> source_valid (sdctrl_step (sdctrl_run sdctrl_reset read_cmd_trace) timeout_frame) quiet"
  using recv_data_timeout_aborts [of "sdctrl_run sdctrl_reset read_cmd_trace" timeout_frame quiet]
  unfolding read_cmd_trace_state
  by (simp add: timeout_frame_def read_cmd_def quiet_def status_def bits_from_def)

lemma write_cmd_trace_state:
  "sdctrl_run sdctrl_reset write_cmd_trace =
     sdctrl_reset\<lparr>fsm := SEND_DATA, cmddone := True, datadone := False, cerrcrc_en := True\<rparr>"
  by (simp add: write_cmd_trace_def write_cmd_sent_def write_resp_last_def write_cmd_def quiet_def sdctrl_reset_def sdctrl_step_def
      act_IDLE_def act_SEND_CMD_def act_RECV_RESP_def source_valid_def waitresp_def dataxfer_def
      status_def bits_from_def Let_def)








lemma data_phase_inv_step:
  assumes "data_phase_inv s"
  shows "data_phase_inv (sdctrl_step s i)"
  using assms
  by (cases "fsm s")
    (auto simp: data_phase_inv_def cfg_or_idle_def sdctrl_step_def act_defs Let_def)

lemma data_phase_inv_run:
  assumes "data_phase_inv s"
  shows "data_phase_inv (sdctrl_run s is)"
  using assms by (induction "is" arbitrary: s) (simp_all add: data_phase_inv_step)

lemma data_phase_entry:
  assumes "fsm (sdctrl_run sdctrl_reset pre) = RECV_RESP"
    and "fsm (sdctrl_run sdctrl_reset (pre @ [i0])) = RECV_DATA
         \<or> fsm (sdctrl_run sdctrl_reset (pre @ [i0])) = SEND_DATA"
  shows "blkcnt (sdctrl_run sdctrl_reset (pre @ [i0])) = 0"
    and "\<not> datadone (sdctrl_run sdctrl_reset (pre @ [i0]))"
    and "\<not> derrwrite (sdctrl_run sdctrl_reset (pre @ [i0]))"
proof -
  let ?s = "sdctrl_run sdctrl_reset pre"
  have inv: "data_phase_inv (sdctrl_run sdctrl_reset is)" for "is"
    by (rule data_phase_inv_run) (simp add: data_phase_inv_def sdctrl_reset_def cfg_or_idle_def)
  have "blkcnt ?s = 0"
    using inv [of pre] assms(1) by (simp add: data_phase_inv_def)
  moreover have "blkcnt (sdctrl_step ?s i0) = blkcnt ?s"
    using assms(1) by (simp add: sdctrl_step_def act_RECV_RESP_def Let_def)
  ultimately show "blkcnt (sdctrl_run sdctrl_reset (pre @ [i0])) = 0"
    by (simp add: sdctrl_run_append)
  show "\<not> datadone (sdctrl_run sdctrl_reset (pre @ [i0]))"
    using inv [of "pre @ [i0]"] assms(2) by (auto simp: data_phase_inv_def cfg_or_idle_def)
  have "\<not> derrwrite ?s"
    using inv [of pre] assms(1) by (simp add: data_phase_inv_def cfg_or_idle_def)
  moreover have "derrwrite (sdctrl_step ?s i0) = derrwrite ?s"
    using assms(1) by (simp add: sdctrl_step_def act_RECV_RESP_def Let_def)
  ultimately show "\<not> derrwrite (sdctrl_run sdctrl_reset (pre @ [i0]))"
    by (simp add: sdctrl_run_append)
qed


lemma write_cmd_sent_state: "fsm (sdctrl_run sdctrl_reset write_cmd_sent) = RECV_RESP"
  by (simp add: write_cmd_sent_def write_cmd_def quiet_def sdctrl_reset_def sdctrl_step_def
      act_IDLE_def act_SEND_CMD_def source_valid_def waitresp_def bits_from_def Let_def)



lemma send_data_step:
  assumes "fsm s = SEND_DATA" and "blockcount i = bc"
  shows "fsm (sdctrl_step s i) = (if block_sent i \<and> \<not> blkcnt s < bc then IDLE else SEND_DATA)"
    and "blkcnt (sdctrl_step s i) =
      (if block_sent i then (if blkcnt s < bc then blkcnt s + 1 else 0) else blkcnt s)"
    and "datadone (sdctrl_step s i) \<longleftrightarrow> datadone s \<or> (block_sent i \<and> \<not> blkcnt s < bc)"
    and "derrwrite (sdctrl_step s i) \<longleftrightarrow> derrwrite s \<or> ack_error i"
  using assms
  by (auto simp: sdctrl_step_def act_SEND_DATA_def block_sent_def ack_error_def
      crc16_source_ready_def Let_def)

lemma send_data_progress:
  assumes "fsm s = SEND_DATA" and "\<forall>i\<in>set is. blockcount i = bc"
    and "unat (blkcnt s) + length (filter block_sent is) \<le> unat bc"
  shows "fsm (sdctrl_run s is) = SEND_DATA
    \<and> unat (blkcnt (sdctrl_run s is)) = unat (blkcnt s) + length (filter block_sent is)
    \<and> datadone (sdctrl_run s is) = datadone s
    \<and> (derrwrite (sdctrl_run s is) \<longleftrightarrow> derrwrite s \<or> (\<exists>i\<in>set is. ack_error i))"
  using assms
proof (induction "is" arbitrary: s)
  case Nil
  then show ?case by simp
next
  case (Cons i "is")
  have bc: "blockcount i = bc" and bcs: "\<forall>i\<in>set is. blockcount i = bc"
    using Cons.prems(2) by simp_all
  note st = send_data_step [OF Cons.prems(1) bc]
  show ?case
  proof (cases "block_sent i")
    case False
    then have "fsm (sdctrl_step s i) = SEND_DATA"
      and "unat (blkcnt (sdctrl_step s i)) + length (filter block_sent is) \<le> unat bc"
      using st Cons.prems(3) by simp_all
    from Cons.IH [OF this(1) bcs this(2)] False st show ?thesis
      by auto
  next
    case True
    with Cons.prems(3) have "unat (blkcnt s) < unat bc" by simp
    then have lt: "blkcnt s < bc" by (simp add: word_less_nat_alt)
    have u: "unat (blkcnt s + 1) = Suc (unat (blkcnt s))"
      using lt by (rule unat_inc_less)
    have "fsm (sdctrl_step s i) = SEND_DATA"
      and "unat (blkcnt (sdctrl_step s i)) + length (filter block_sent is) \<le> unat bc"
      using st True lt u Cons.prems(3) by simp_all
    from Cons.IH [OF this(1) bcs this(2)] True st lt u show ?thesis
      by auto
  qed
qed

lemma send_data_prefix:
  assumes "fsm s = SEND_DATA" and "blkcnt s = 0" and "\<forall>i\<in>set is. blockcount i = bc"
    and "length (filter block_sent is) = unat bc + 1" and "block_sent (last is)"
    and "is = p @ q" and "q \<noteq> []"
  shows "fsm (sdctrl_run s p) = SEND_DATA \<and> datadone (sdctrl_run s p) = datadone s
    \<and> unat (blkcnt (sdctrl_run s p)) = length (filter block_sent p)
    \<and> (derrwrite (sdctrl_run s p) \<longleftrightarrow> derrwrite s \<or> (\<exists>i\<in>set p. ack_error i))"
proof -
  have "last is = last q" using assms(6,7) by simp
  then have "last q \<in> set (filter block_sent q)"
    using assms(5,7) by simp
  then have "0 < length (filter block_sent q)"
    by (rule length_pos_if_in_set)
  moreover have "length (filter block_sent p) + length (filter block_sent q) = unat bc + 1"
    using assms(4) unfolding assms(6) by simp
  moreover have z: "unat (blkcnt s) = 0" using assms(2) by simp
  ultimately have "unat (blkcnt s) + length (filter block_sent p) \<le> unat bc"
    by linarith
  moreover have "\<forall>i\<in>set p. blockcount i = bc" using assms(3) unfolding assms(6) by simp
  ultimately show ?thesis
    using send_data_progress [OF assms(1), of p bc] z by simp
qed

lemma send_data_complete:
  assumes "fsm s = SEND_DATA" and "blkcnt s = 0" and "\<forall>i\<in>set is. blockcount i = bc"
    and "length (filter block_sent is) = unat bc + 1" and "block_sent (last is)"
  shows "fsm (sdctrl_run s is) = IDLE \<and> blkcnt (sdctrl_run s is) = 0
    \<and> datadone (sdctrl_run s is)
    \<and> (derrwrite (sdctrl_run s is) \<longleftrightarrow> derrwrite s \<or> (\<exists>i\<in>set is. ack_error i))"
proof -
  from assms(4) have ne: "is \<noteq> []" by auto
  define p where "p = butlast is"
  define l where "l = last is"
  have split: "is = p @ [l]" using ne by (simp add: p_def l_def)
  have sl: "block_sent l" using assms(5) by (simp add: l_def)
  have A: "fsm (sdctrl_run s p) = SEND_DATA \<and> datadone (sdctrl_run s p) = datadone s
    \<and> unat (blkcnt (sdctrl_run s p)) = length (filter block_sent p)
    \<and> (derrwrite (sdctrl_run s p) \<longleftrightarrow> derrwrite s \<or> (\<exists>i\<in>set p. ack_error i))"
    using send_data_prefix [OF assms(1,2,3,4,5) split] by simp
  have "length (filter block_sent (p @ [l])) = unat bc + 1"
    using assms(4) unfolding split .
  then have "length (filter block_sent p) = unat bc" using sl by simp
  then have eq: "blkcnt (sdctrl_run s p) = bc"
    using A by (simp add: word_unat_eq_iff)
  have bl: "blockcount l = bc" using assms(3) unfolding split by simp
  have fp: "fsm (sdctrl_run s p) = SEND_DATA" using A by simp
  note st = send_data_step [OF fp bl]
  have run: "sdctrl_run s is = sdctrl_step (sdctrl_run s p) l"
    by (simp add: split sdctrl_run_append)
  have ex: "(\<exists>i\<in>set is. ack_error i) \<longleftrightarrow> (\<exists>i\<in>set p. ack_error i) \<or> ack_error l"
    unfolding split by auto
  show ?thesis
    unfolding run ex using st sl eq A by simp
qed

lemma send_data_loop:
  assumes "fsm s = SEND_DATA" and "blkcnt s = 0" and "\<not> datadone s"
    and "\<forall>i\<in>set is. blockcount i = bc"
    and "length (filter block_sent is) = unat bc + 1" and "block_sent (last is)"
  shows "fsm (sdctrl_run s is) = IDLE
    \<and> bit (dataevt_status (sdctrl_run s is) i') 0
    \<and> (bit (dataevt_status (sdctrl_run s is) i') 1 \<longleftrightarrow> derrwrite s \<or> (\<exists>i\<in>set is. ack_error i))
    \<and> (\<forall>p q. is = p @ q \<and> q \<noteq> [] \<longrightarrow>
          fsm (sdctrl_run s p) = SEND_DATA
          \<and> \<not> bit (dataevt_status (sdctrl_run s p) i') 0
          \<and> unat (blkcnt (sdctrl_run s p)) = length (filter block_sent p)
          \<and> (bit (dataevt_status (sdctrl_run s p) i') 1 \<longleftrightarrow> derrwrite s \<or> (\<exists>i\<in>set p. ack_error i)))"
proof -
  have fin: "fsm (sdctrl_run s is) = IDLE \<and> blkcnt (sdctrl_run s is) = 0
    \<and> datadone (sdctrl_run s is)
    \<and> (derrwrite (sdctrl_run s is) \<longleftrightarrow> derrwrite s \<or> (\<exists>i\<in>set is. ack_error i))"
    using assms(1,2,4,5,6) by (rule send_data_complete)
  have pre: "fsm (sdctrl_run s p) = SEND_DATA \<and> \<not> datadone (sdctrl_run s p)
    \<and> unat (blkcnt (sdctrl_run s p)) = length (filter block_sent p)
    \<and> (derrwrite (sdctrl_run s p) \<longleftrightarrow> derrwrite s \<or> (\<exists>i\<in>set p. ack_error i))"
    if "is = p @ q" and "q \<noteq> []" for p q
    using send_data_prefix [OF assms(1,2,4,5,6) that] assms(3) by simp
  show ?thesis
    unfolding dataevt_bit0 dataevt_bit1 using fin pre by blast
qed

text \<open>
  C5. In a run of the machine from reset, a WRITE transfer begins with the step from
  RECV_RESP to SEND_DATA; it runs with block count \<open>bc\<close> and the acknowledgement bytes are
  arbitrary. When \<open>bc + 1\<close> blocks have been completed the machine is in IDLE and
  \<open>dataevt.done\<close> reads 1. The write-error bit then reads 1 exactly when some
  acknowledgement byte had a status other than DATA_ACCEPTED.
  Before the last cycle the machine is still in SEND_DATA, its block counter counts the
  completed blocks whatever the acknowledgements were, and the write-error bit already
  shows the acknowledgements received so far.
\<close>

theorem send_data_write_error_sticky:
  assumes "fsm (sdctrl_run sdctrl_reset pre) = RECV_RESP"
    and "fsm (sdctrl_run sdctrl_reset (pre @ [i0])) = SEND_DATA"
    and "\<forall>i\<in>set is. blockcount i = bc"
    and "length (filter block_sent is) = unat bc + 1" and "block_sent (last is)"
  shows "fsm (sdctrl_run (sdctrl_run sdctrl_reset (pre @ [i0])) is) = IDLE
    \<and> bit (dataevt_status (sdctrl_run (sdctrl_run sdctrl_reset (pre @ [i0])) is) i') 0
    \<and> (bit (dataevt_status (sdctrl_run (sdctrl_run sdctrl_reset (pre @ [i0])) is) i') 1 \<longleftrightarrow>
          (\<exists>i\<in>set is. ack_error i))
    \<and> (\<forall>p q. is = p @ q \<and> q \<noteq> [] \<longrightarrow>
          fsm (sdctrl_run (sdctrl_run sdctrl_reset (pre @ [i0])) p) = SEND_DATA
          \<and> \<not> bit (dataevt_status (sdctrl_run (sdctrl_run sdctrl_reset (pre @ [i0])) p) i') 0
          \<and> unat (blkcnt (sdctrl_run (sdctrl_run sdctrl_reset (pre @ [i0])) p))
              = length (filter block_sent p)
          \<and> (bit (dataevt_status (sdctrl_run (sdctrl_run sdctrl_reset (pre @ [i0])) p) i') 1 \<longleftrightarrow>
                (\<exists>i\<in>set p. ack_error i)))"
  using send_data_loop [OF assms(2) data_phase_entry(1,2) [OF assms(1) disjI2 [OF assms(2)]]
      assms(3,4,5), of i'] data_phase_entry(3) [OF assms(1) disjI2 [OF assms(2)]]
  by simp

text \<open>Witness of C5: two blocks, a WRITE_ERROR acknowledgement between them.\<close>

theorem send_data_write_error_sticky_witness:
  "fsm (sdctrl_run sdctrl_reset write_cmd_sent) = RECV_RESP
   \<and> fsm (sdctrl_run sdctrl_reset write_cmd_trace) = SEND_DATA
   \<and> blockcount block_end = 1 \<and> blockcount ack_write_error = 1
   \<and> length (filter block_sent [block_end, ack_write_error, block_end]) = unat (1 :: 16 word) + 1
   \<and> block_sent (last [block_end, ack_write_error, block_end])
   \<and> ack_error ack_write_error
   \<and> fsm (sdctrl_run (sdctrl_run sdctrl_reset write_cmd_trace)
        [block_end, ack_write_error, block_end]) = IDLE
   \<and> bit (dataevt_status (sdctrl_run (sdctrl_run sdctrl_reset write_cmd_trace)
        [block_end, ack_write_error, block_end]) quiet) 0
   \<and> bit (dataevt_status (sdctrl_run (sdctrl_run sdctrl_reset write_cmd_trace)
        [block_end, ack_write_error, block_end]) quiet) 1
   \<and> fsm (sdctrl_run (sdctrl_run sdctrl_reset write_cmd_trace)
        [block_end, ack_write_error]) = SEND_DATA
   \<and> bit (dataevt_status (sdctrl_run (sdctrl_run sdctrl_reset write_cmd_trace)
        [block_end, ack_write_error]) quiet) 1"
proof -
  let ?s = "sdctrl_run sdctrl_reset write_cmd_trace"
  let ?is = "[block_end, ack_write_error, block_end]"
  have h1: "fsm ?s = SEND_DATA" and h2: "blkcnt ?s = 0" and h3: "\<not> datadone ?s"
    unfolding write_cmd_trace_state by (simp_all add: sdctrl_reset_def)
  have bc: "blockcount block_end = 1" "blockcount ack_write_error = 1"
    by (simp_all add: block_end_def ack_write_error_def write_cmd_def)
  then have h4: "\<forall>i\<in>set ?is. blockcount i = 1" by simp
  have sent: "block_sent block_end" "\<not> block_sent ack_write_error"
    by (simp_all add: block_sent_def block_end_def ack_write_error_def write_cmd_def quiet_def)
  then have h5: "length (filter block_sent ?is) = unat (1 :: 16 word) + 1"
    and h6: "block_sent (last ?is)"
    by simp_all
  have ack: "ack_error ack_write_error"
    by (simp add: ack_error_def ack_write_error_def status_def bits_from_def)
  note th = send_data_write_error_sticky [OF write_cmd_sent_state h1 [unfolded write_cmd_trace_def]
      h4 h5 h6, of quiet, folded write_cmd_trace_def]
  have ex: "\<exists>i\<in>set ?is. ack_error i" using ack by simp
  have fin: "fsm (sdctrl_run ?s ?is) = IDLE \<and> bit (dataevt_status (sdctrl_run ?s ?is) quiet) 0
      \<and> bit (dataevt_status (sdctrl_run ?s ?is) quiet) 1"
    using th ex by blast
  have pre: "fsm (sdctrl_run ?s [block_end, ack_write_error]) = SEND_DATA
      \<and> bit (dataevt_status (sdctrl_run ?s [block_end, ack_write_error]) quiet) 1"
  proof -
    have "?is = [block_end, ack_write_error] @ [block_end] \<and> [block_end] \<noteq> []" by simp
    moreover have "\<exists>i\<in>set [block_end, ack_write_error]. ack_error i" using ack by simp
    ultimately show ?thesis using th by blast
  qed
  show ?thesis
    using write_cmd_sent_state h1 bc h5 h6 ack fin pre by blast
qed

section \<open>The command reader's timeout (C7)\<close>

lemma cmdr_wait_append:
  "cmdr_wait cfg r (xs @ ys) = cmdr_wait cfg (cmdr_wait cfg r xs) ys"
  by (induction xs arbitrary: r) simp_all

lemma readstart_step:
  assumes "cmdr_fsm r = CMD_READSTART"
  shows "cmdr_fsm_step cfg r i fv =
    r\<lparr>ctimeout := ctimeout r + 1,
      cmdr_fsm := (if fv then CMD_READ else if ctimeout r > cfgctimeout cfg then TIMEOUT
                   else CMD_READSTART)\<rparr>"
  using assms by (simp add: cmdr_fsm_step_def Let_def)

lemma readstart_wait:
  assumes "cmdr_fsm r = CMD_READSTART" and "cfgctimeout cfg \<noteq> - 1"
    and "unat (ctimeout r) + length is \<le> unat (cfgctimeout cfg) + 1"
  shows "cmdr_fsm (cmdr_wait cfg r is) = CMD_READSTART
    \<and> unat (ctimeout (cmdr_wait cfg r is)) = unat (ctimeout r) + length is"
  using assms
proof (induction "is" arbitrary: r)
  case Nil
  then show ?case by simp
next
  case (Cons i "is")
  from Cons.prems(3) have "unat (ctimeout r) \<le> unat (cfgctimeout cfg)" by simp
  then have le: "ctimeout r \<le> cfgctimeout cfg" by (simp add: word_le_nat_alt)
  have "cfgctimeout cfg < - 1"
    using Cons.prems(2) by (simp add: word_order.not_eq_extremum)
  with le have "ctimeout r < - 1" by simp
  then have u: "unat (ctimeout r + 1) = Suc (unat (ctimeout r))"
    by (rule unat_inc_less)
  have st: "cmdr_fsm_step cfg r i False = r\<lparr>ctimeout := ctimeout r + 1\<rparr>"
    using le Cons.prems(1) by (simp add: readstart_step not_less [symmetric])
  have "cmdr_fsm (r\<lparr>ctimeout := ctimeout r + 1\<rparr>) = CMD_READSTART"
    using Cons.prems(1) by simp
  moreover have "unat (ctimeout (r\<lparr>ctimeout := ctimeout r + 1\<rparr>)) + length is
      \<le> unat (cfgctimeout cfg) + 1"
    using Cons.prems(3) u by simp
  ultimately show ?case
    using Cons.IH [of "r\<lparr>ctimeout := ctimeout r + 1\<rparr>"] Cons.prems(2) st u by simp
qed

lemma readstart_expires:
  assumes "cmdr_fsm r = CMD_READSTART" and "ctimeout r = 0" and "cfgctimeout cfg \<noteq> - 1"
    and "length is = unat (cfgctimeout cfg) + 2"
  shows "cmdr_fsm (cmdr_wait cfg r is) = TIMEOUT"
proof -
  from assms(4) have ne: "is \<noteq> []" by auto
  define p where "p = butlast is"
  define l where "l = last is"
  have split: "is = p @ [l]" using ne by (simp add: p_def l_def)
  have len: "length p = unat (cfgctimeout cfg) + 1"
    using assms(4) by (simp add: p_def)
  have "cmdr_fsm (cmdr_wait cfg r p) = CMD_READSTART
      \<and> unat (ctimeout (cmdr_wait cfg r p)) = unat (ctimeout r) + length p"
    using assms(1,2,3) len by (intro readstart_wait) simp_all
  then have f: "cmdr_fsm (cmdr_wait cfg r p) = CMD_READSTART"
    and "unat (ctimeout (cmdr_wait cfg r p)) = unat (cfgctimeout cfg) + 1"
    using assms(2) len by simp_all
  then have "cfgctimeout cfg < ctimeout (cmdr_wait cfg r p)"
    by (simp add: word_less_nat_alt)
  then show ?thesis
    unfolding split cmdr_wait_append using f by (simp add: readstart_step)
qed

lemma timeout_only_from_readstart:
  assumes "cmdr_fsm r \<noteq> CMD_READSTART" and "cmdr_fsm r \<noteq> TIMEOUT"
  shows "cmdr_fsm (cmdr_fsm_step cfg r i fv) \<noteq> TIMEOUT"
  using assms by (cases "cmdr_fsm r") (simp_all add: cmdr_fsm_step_def Let_def)

lemma idle_read_request:
  assumes "cmdr_fsm r0 = R_IDLE" and "cmdr_sink_valid i0"
  shows "cmdr_fsm (cmdr_fsm_step cfg r0 i0 fv) = CMD_READSTART"
    and "ctimeout (cmdr_fsm_step cfg r0 i0 fv) = 0"
  using assms by (simp_all add: cmdr_fsm_step_def)

lemma readstart_never_expires:
  assumes "cmdr_fsm r = CMD_READSTART" and "cfgctimeout cfg = - 1"
  shows "cmdr_fsm (cmdr_wait cfg r is) = CMD_READSTART"
  using assms
proof (induction "is" arbitrary: r)
  case Nil
  then show ?case by simp
next
  case (Cons i "is")
  have "\<not> ctimeout r > cfgctimeout cfg"
    using Cons.prems(2) by simp
  then have "cmdr_fsm (cmdr_fsm_step cfg r i False) = CMD_READSTART"
    using Cons.prems(1) by (simp add: readstart_step)
  then show ?case using Cons.IH Cons.prems(2) by simp
qed

text \<open>
  C7, for a threshold \<open>T\<close> below \<open>2^32 - 1\<close>. A read request takes the reader from IDLE to
  CMD_READSTART with the wait counter at 0. While no byte arrives, the reader is still in
  CMD_READSTART after \<open>n\<close> cycles for every \<open>n\<close> up to \<open>T + 1\<close>, the counter then holds \<open>n\<close>,
  and a byte arriving in the next cycle leads to CMD_READ. After \<open>T + 2\<close> cycles the reader
  is in TIMEOUT: it was entered in the cycle that found the counter at \<open>T + 1\<close>, the first
  value above \<open>T\<close>. TIMEOUT is entered from CMD_READSTART only.
\<close>

theorem command_timeout_threshold:
  assumes "cmdr_fsm r0 = R_IDLE" and "cmdr_sink_valid i0" and "cfgctimeout cfg \<noteq> - 1"
  shows "(length ws \<le> unat (cfgctimeout cfg) + 1 \<longrightarrow>
            cmdr_fsm (cmdr_wait cfg (cmdr_fsm_step cfg r0 i0 fv) ws) = CMD_READSTART
            \<and> unat (ctimeout (cmdr_wait cfg (cmdr_fsm_step cfg r0 i0 fv) ws)) = length ws
            \<and> cmdr_fsm (cmdr_fsm_step cfg (cmdr_wait cfg (cmdr_fsm_step cfg r0 i0 fv) ws) i True)
                = CMD_READ)
    \<and> (length ws = unat (cfgctimeout cfg) + 2 \<longrightarrow>
            cmdr_fsm (cmdr_wait cfg (cmdr_fsm_step cfg r0 i0 fv) ws) = TIMEOUT)
    \<and> (cmdr_fsm r \<noteq> CMD_READSTART \<and> cmdr_fsm r \<noteq> TIMEOUT \<longrightarrow>
            cmdr_fsm (cmdr_fsm_step cfg r i fv') \<noteq> TIMEOUT)"
proof -
  let ?r = "cmdr_fsm_step cfg r0 i0 fv"
  note start = idle_read_request [OF assms(1,2), of cfg fv]
  have a: "cmdr_fsm (cmdr_wait cfg ?r ws) = CMD_READSTART
      \<and> unat (ctimeout (cmdr_wait cfg ?r ws)) = length ws
      \<and> cmdr_fsm (cmdr_fsm_step cfg (cmdr_wait cfg ?r ws) i True) = CMD_READ"
    if "length ws \<le> unat (cfgctimeout cfg) + 1"
  proof -
    have "cmdr_fsm (cmdr_wait cfg ?r ws) = CMD_READSTART
      \<and> unat (ctimeout (cmdr_wait cfg ?r ws)) = unat (ctimeout ?r) + length ws"
      using start assms(3) that by (intro readstart_wait) simp_all
    then show ?thesis using start by (simp add: readstart_step)
  qed
  have b: "cmdr_fsm (cmdr_wait cfg ?r ws) = TIMEOUT"
    if "length ws = unat (cfgctimeout cfg) + 2"
    using start assms(3) that by (intro readstart_expires)
  show ?thesis
    using a b timeout_only_from_readstart [of r cfg i fv'] by blast
qed

text \<open>Witness of C7: threshold 2; three cycles of waiting, then a byte or a fourth cycle.\<close>

theorem command_timeout_threshold_witness:
  "cmdr_fsm cmdr_regs_reset = R_IDLE \<and> cmdr_sink_valid read_req \<and> cfgctimeout cfg2 \<noteq> - 1
   \<and> length [cmdr_quiet, cmdr_quiet, cmdr_quiet] \<le> unat (cfgctimeout cfg2) + 1
   \<and> cmdr_fsm (cmdr_wait cfg2 (cmdr_fsm_step cfg2 cmdr_regs_reset read_req False)
        [cmdr_quiet, cmdr_quiet, cmdr_quiet]) = CMD_READSTART
   \<and> cmdr_fsm (cmdr_fsm_step cfg2
        (cmdr_wait cfg2 (cmdr_fsm_step cfg2 cmdr_regs_reset read_req False)
          [cmdr_quiet, cmdr_quiet, cmdr_quiet]) cmdr_quiet True) = CMD_READ
   \<and> length [cmdr_quiet, cmdr_quiet, cmdr_quiet, cmdr_quiet] = unat (cfgctimeout cfg2) + 2
   \<and> cmdr_fsm (cmdr_wait cfg2 (cmdr_fsm_step cfg2 cmdr_regs_reset read_req False)
        [cmdr_quiet, cmdr_quiet, cmdr_quiet, cmdr_quiet]) = TIMEOUT
   \<and> cmdr_fsm (cmdr_regs_reset\<lparr>cmdr_fsm := CMD_READ\<rparr>) \<noteq> CMD_READSTART
   \<and> cmdr_fsm (cmdr_regs_reset\<lparr>cmdr_fsm := CMD_READ\<rparr>) \<noteq> TIMEOUT
   \<and> cmdr_fsm (cmdr_fsm_step cfg2 (cmdr_regs_reset\<lparr>cmdr_fsm := CMD_READ\<rparr>)
        (cmdr_quiet\<lparr>cmdr_source_ready := True\<rparr>) True) \<noteq> TIMEOUT"
proof -
  have h1: "cmdr_fsm cmdr_regs_reset = R_IDLE" by (simp add: cmdr_regs_reset_def)
  have h2: "cmdr_sink_valid read_req" by (simp add: read_req_def)
  have h3: "cfgctimeout cfg2 \<noteq> - 1" by (simp add: cfg2_def)
  have l3: "length [cmdr_quiet, cmdr_quiet, cmdr_quiet] \<le> unat (cfgctimeout cfg2) + 1"
    by (simp add: cfg2_def)
  have l4: "length [cmdr_quiet, cmdr_quiet, cmdr_quiet, cmdr_quiet] = unat (cfgctimeout cfg2) + 2"
    by (simp add: cfg2_def)
  have n: "cmdr_fsm (cmdr_regs_reset\<lparr>cmdr_fsm := CMD_READ\<rparr>) \<noteq> CMD_READSTART
      \<and> cmdr_fsm (cmdr_regs_reset\<lparr>cmdr_fsm := CMD_READ\<rparr>) \<noteq> TIMEOUT"
    by simp
  show ?thesis
    using h1 h2 h3 l3 l4 n
      command_timeout_threshold [OF h1 h2 h3, where fv = False and i = cmdr_quiet
        and r = "cmdr_regs_reset\<lparr>cmdr_fsm := CMD_READ\<rparr>" and fv' = True
        and ws = "[cmdr_quiet, cmdr_quiet, cmdr_quiet]"]
      command_timeout_threshold [OF h1 h2 h3, where fv = False
        and i = "cmdr_quiet\<lparr>cmdr_source_ready := True\<rparr>"
        and r = "cmdr_regs_reset\<lparr>cmdr_fsm := CMD_READ\<rparr>" and fv' = True
        and ws = "[cmdr_quiet, cmdr_quiet, cmdr_quiet, cmdr_quiet]"]
    by blast
qed

text \<open>
  Counterexample to C7 as stated, at the threshold \<open>2^32 - 1\<close>: the 32-bit counter never
  exceeds it. After \<open>2^32 + 1\<close> cycles of waiting, more than the threshold, the reader is
  still in CMD_READSTART.
\<close>

theorem command_timeout_max_never_fires:
  "cfgctimeout (sdphycfg_reset\<lparr>cfgctimeout := 4294967295\<rparr>) = 4294967295
   \<and> length (replicate 4294967297 cmdr_quiet) = 4294967297
   \<and> cmdr_fsm (cmdr_wait (sdphycfg_reset\<lparr>cfgctimeout := 4294967295\<rparr>)
        (cmdr_fsm_step (sdphycfg_reset\<lparr>cfgctimeout := 4294967295\<rparr>) cmdr_regs_reset read_req False)
        (replicate 4294967297 cmdr_quiet)) = CMD_READSTART"
proof -
  have c1: "cfgctimeout (sdphycfg_reset\<lparr>cfgctimeout := 4294967295\<rparr>) = 4294967295"
    by simp
  have c2: "length (replicate 4294967297 cmdr_quiet) = 4294967297"
    by (rule length_replicate)
  have c3: "cmdr_fsm (cmdr_wait (sdphycfg_reset\<lparr>cfgctimeout := 4294967295\<rparr>)
        (cmdr_fsm_step (sdphycfg_reset\<lparr>cfgctimeout := 4294967295\<rparr>) cmdr_regs_reset read_req False)
        (replicate 4294967297 cmdr_quiet)) = CMD_READSTART"
    by (rule readstart_never_expires)
      (simp_all add: cmdr_fsm_step_def cmdr_regs_reset_def read_req_def cmdr_quiet_def)
  from c1 c2 c3 show ?thesis by (intro conjI)
qed

section \<open>The valid/ready handshake (C3)\<close>









section \<open>Configuration writes (C8)\<close>

lemma byte_reassemble32:
  "set_byte 0 (bits_from 0 v) (set_byte 8 (bits_from 8 v)
     (set_byte 16 (bits_from 16 v) (set_byte 24 (bits_from 24 v) (x :: 32 word)))) = v"
  by (rule bit_word_eqI) (auto simp: set_byte_def bits_from_def bit_simps)

lemma byte_reassemble16:
  "set_byte 0 (bits_from 0 v) (set_byte 8 (bits_from 8 v) (x :: 16 word)) = v"
  by (rule bit_word_eqI) (auto simp: set_byte_def bits_from_def bit_simps)

lemma pos_cases: "(p :: 2 word) = 0 \<or> p = 1 \<or> p = 2 \<or> p = 3"
proof -
  have "unat p < 4" using unsigned_less [of p] by simp
  then have "unat p = 0 \<or> unat p = 1 \<or> unat p = 2 \<or> unat p = 3" by arith
  then show ?thesis by (auto simp: word_unat_eq_iff)
qed

lemma tag_modes:
  "bits_from 2 (20 :: 8 word) = (5 :: 6 word)" "bits_from 2 (24 :: 8 word) = (6 :: 6 word)"
  "bits_from 2 (28 :: 8 word) = (7 :: 6 word)" "bits_from 2 (32 :: 8 word) = (8 :: 6 word)"
  "bits_from 2 (4 :: 8 word) = (1 :: 6 word)" "bits_from 2 (8 :: 8 word) = (2 :: 6 word)"
  "bits_from 2 (12 :: 8 word) = (3 :: 6 word)" "bits_from 2 (16 :: 8 word) = (4 :: 6 word)"
  "bits_from 2 (36 :: 8 word) = (9 :: 6 word)" "bits_from 2 (40 :: 8 word) = (10 :: 6 word)"
  "bits_from 2 (44 :: 8 word) = (11 :: 6 word)"
  by (simp_all add: bits_from_def drop_bit_eq_div)

lemma latch_dt: "cfgdtimeout (sdphy_cfg_run c (dt_frames v)) = v"
  by (simp add: dt_frames_def sdphy_cfg_deliver_def sdphycfg_step_def cfgcases_def tag_modes
      byte_reassemble32)

lemma latch_ct: "cfgctimeout (sdphy_cfg_run c (ct_frames v)) = v"
  by (simp add: ct_frames_def sdphy_cfg_deliver_def sdphycfg_step_def cfgcases_def tag_modes
      byte_reassemble32)

lemma latch_blk: "cfgblksize (sdphy_cfg_run c (blk_frames v)) = v"
  by (simp add: blk_frames_def sdphy_cfg_deliver_def sdphycfg_step_def cfgcases_def tag_modes
      byte_reassemble16)

lemma latch_volt: "cfgvoltage (sdphy_cfg_run c (volt_frames v)) = bits_from 0 v"
  by (simp add: volt_frames_def sdphy_cfg_deliver_def sdphycfg_step_def cfgcases_def tag_modes)
    (simp add: bits_from_def)

lemma dt_frame:
  assumes "fsm s = CFG_TIMEOUT_DATA" and "datatimeout i = v"
  shows "source_valid s i" and "(source_data s i, source_ctrl s) = dt_frames v ! unat (pos s)"
  using assms pos_cases [of "pos s"]
  by (auto simp: source_valid_def source_data_def source_ctrl_def cmddata_def rdwr_def mode_def
      dt_frames_def)

lemma ct_frame:
  assumes "fsm s = CFG_TIMEOUT_CMD" and "cmdtimeout i = v"
  shows "source_valid s i" and "(source_data s i, source_ctrl s) = ct_frames v ! unat (pos s)"
  using assms pos_cases [of "pos s"]
  by (auto simp: source_valid_def source_data_def source_ctrl_def cmddata_def rdwr_def mode_def
      ct_frames_def)

lemma blk_frame:
  assumes "fsm s = CFG_BLKSIZE" and "blocksize i = v" and "unat (pos s) < 2"
  shows "source_valid s i" and "(source_data s i, source_ctrl s) = blk_frames v ! unat (pos s)"
  using assms pos_cases [of "pos s"]
  by (auto simp: source_valid_def source_data_def source_ctrl_def cmddata_def rdwr_def mode_def
      blk_frames_def)

lemma volt_frame:
  assumes "fsm s = CFG_VOLTAGE" and "voltage i = v" and "unat (pos s) < 1"
  shows "source_valid s i" and "(source_data s i, source_ctrl s) = volt_frames v ! unat (pos s)"
  using assms
  by (auto simp: source_valid_def source_data_def source_ctrl_def cmddata_def rdwr_def mode_def
      volt_frames_def)

lemma cfg_stream:
  fixes F :: "frame list" and P :: "sdctrl_in \<Rightarrow> bool" and st :: ctrl_state
  assumes stall: "\<And>s i. fsm s = st \<Longrightarrow> \<not> source_ready i \<Longrightarrow> sdctrl_step s i = s"
    and final: "\<And>s i. fsm s = st \<Longrightarrow> source_ready i \<Longrightarrow> Suc (unat (pos s)) = length F
                  \<Longrightarrow> fsm (sdctrl_step s i) = IDLE"
    and advance: "\<And>s i. fsm s = st \<Longrightarrow> source_ready i \<Longrightarrow> Suc (unat (pos s)) < length F
                  \<Longrightarrow> sdctrl_step s i = s\<lparr>pos := pos s + 1\<rparr>"
    and frame: "\<And>s i. fsm s = st \<Longrightarrow> P i \<Longrightarrow> unat (pos s) < length F
                  \<Longrightarrow> source_valid s i \<and> (source_data s i, source_ctrl s) = F ! unat (pos s)"
    and len: "length F \<le> 4"
  shows "fsm s = st \<Longrightarrow> \<forall>i\<in>set is. P i \<Longrightarrow> unat (pos s) < length F
    \<Longrightarrow> length (filter source_ready is) = length F - unat (pos s)
    \<Longrightarrow> source_ready (last is)
    \<Longrightarrow> fsm (sdctrl_run s is) = IDLE \<and> sdctrl_frames s is = drop (unat (pos s)) F"
proof (induction "is" arbitrary: s)
  case Nil
  then show ?case by simp
next
  case (Cons i "is")
  have Pi: "P i" and Ps: "\<forall>i\<in>set is. P i" using Cons.prems(2) by simp_all
  note fr = frame [OF Cons.prems(1) Pi Cons.prems(3)]
  show ?case
  proof (cases "source_ready i")
    case False
    then have st: "sdctrl_step s i = s" using Cons.prems(1) by (simp add: stall)
    have cnt: "length (filter source_ready is) = length F - unat (pos s)"
      using Cons.prems(4) False by simp
    with Cons.prems(3) have "is \<noteq> []" by auto
    then have "source_ready (last is)" using Cons.prems(5) by simp
    from Cons.IH [OF Cons.prems(1) Ps Cons.prems(3) cnt this] False st show ?thesis
      by simp
  next
    case True
    show ?thesis
    proof (cases "Suc (unat (pos s)) = length F")
      case last: True
      have "Suc (length (filter source_ready is)) = length F - unat (pos s)"
        using Cons.prems(4) \<open>source_ready i\<close> by simp
      with last have "length (filter source_ready is) = 0" by arith
      then have no: "filter source_ready is = []" by simp
      have "is = []"
      proof (rule ccontr)
        assume "is \<noteq> []"
        then have "last is \<in> set is" and "source_ready (last is)"
          using Cons.prems(5) by simp_all
        then have "last is \<in> set (filter source_ready is)" by simp
        with no show False by simp
      qed
      moreover have "drop (unat (pos s)) F = [F ! unat (pos s)]"
        using last by (metis Cons_nth_drop_Suc drop_all lessI order_refl)
      ultimately show ?thesis
        using final [OF Cons.prems(1) \<open>source_ready i\<close> last] fr \<open>source_ready i\<close> by simp
    next
      case False
      with Cons.prems(3) have lt: "Suc (unat (pos s)) < length F" by simp
      with len have "unat (pos s) < unat (3 :: 2 word)" by simp
      then have "pos s < 3" by (simp add: word_less_nat_alt)
      then have u: "unat (pos s + 1) = Suc (unat (pos s))" by (rule unat_inc_less)
      let ?s' = "s\<lparr>pos := pos s + 1\<rparr>"
      have st: "sdctrl_step s i = ?s'"
        using advance [OF Cons.prems(1) \<open>source_ready i\<close> lt] .
      have a1: "fsm ?s' = st" using Cons.prems(1) by simp
      have a3: "unat (pos ?s') < length F" using lt u by simp
      have "Suc (length (filter source_ready is)) = length F - unat (pos s)"
        using Cons.prems(4) \<open>source_ready i\<close> by simp
      moreover have "unat (pos ?s') = Suc (unat (pos s))" using u by simp
      ultimately have cnt: "length (filter source_ready is) = length F - unat (pos ?s')"
        by arith
      with a3 have "is \<noteq> []" by auto
      then have a5: "source_ready (last is)" using Cons.prems(5) by simp
      have "drop (unat (pos s)) F = F ! unat (pos s) # drop (unat (pos ?s')) F"
        using Cons.prems(3) u by (simp add: Cons_nth_drop_Suc)
      with Cons.IH [OF a1 Ps a3 cnt a5] st fr \<open>source_ready i\<close> show ?thesis
        by simp
    qed
  qed
qed

lemma idle_no_frame:
  assumes "fsm s = IDLE"
  shows "sdctrl_frames s (i0 # is) = sdctrl_frames (sdctrl_step s i0) is"
  using assms by (simp add: source_valid_def)

lemma unat_pos_eq: "unat (p :: 2 word) = 3 \<longleftrightarrow> p = 3" "unat (p :: 2 word) = Suc 0 \<longleftrightarrow> p = 1"
  "unat (p :: 2 word) = 0 \<longleftrightarrow> p = 0"
  by (simp_all add: word_unat_eq_iff)

lemma dt_stream:
  assumes "fsm s = CFG_TIMEOUT_DATA" and "pos s = 0" and "\<forall>i\<in>set is. datatimeout i = v"
    and "length (filter source_ready is) = 4" and "source_ready (last is)"
  shows "fsm (sdctrl_run s is) = IDLE \<and> sdctrl_frames s is = dt_frames v"
proof -
  have "fsm (sdctrl_run s is) = IDLE \<and> sdctrl_frames s is = drop (unat (pos s)) (dt_frames v)"
  proof (rule cfg_stream [where st = CFG_TIMEOUT_DATA and P = "\<lambda>i. datatimeout i = v"])
    show "sdctrl_step s i = s" if "fsm s = CFG_TIMEOUT_DATA" "\<not> source_ready i" for s i
      using that by (simp add: sdctrl_step_def act_CFG_TIMEOUT_DATA_def)
    show "fsm (sdctrl_step s i) = IDLE"
      if "fsm s = CFG_TIMEOUT_DATA" "source_ready i" "Suc (unat (pos s)) = length (dt_frames v)" for s i
    proof -
      from that(3) have "unat (pos s) = 3" by (simp add: dt_frames_def)
      then have "pos s = 3" by (simp add: unat_pos_eq)
      with that(1,2) show ?thesis
        by (simp add: sdctrl_step_def act_CFG_TIMEOUT_DATA_def source_valid_def Let_def)
    qed
    show "sdctrl_step s i = s\<lparr>pos := pos s + 1\<rparr>"
      if "fsm s = CFG_TIMEOUT_DATA" "source_ready i" "Suc (unat (pos s)) < length (dt_frames v)" for s i
    proof -
      from that(3) have "unat (pos s) \<noteq> 3" by (simp add: dt_frames_def)
      then have "pos s \<noteq> 3" by (simp add: unat_pos_eq)
      with that(1,2) show ?thesis
        by (simp add: sdctrl_step_def act_CFG_TIMEOUT_DATA_def source_valid_def Let_def)
    qed
    show "source_valid s i \<and> (source_data s i, source_ctrl s) = dt_frames v ! unat (pos s)"
      if "fsm s = CFG_TIMEOUT_DATA" "datatimeout i = v" for s i
      using dt_frame [OF that] by simp
  qed (use assms in \<open>simp_all add: dt_frames_def\<close>)
  then show ?thesis using assms(2) by simp
qed

lemma ct_stream:
  assumes "fsm s = CFG_TIMEOUT_CMD" and "pos s = 0" and "\<forall>i\<in>set is. cmdtimeout i = v"
    and "length (filter source_ready is) = 4" and "source_ready (last is)"
  shows "fsm (sdctrl_run s is) = IDLE \<and> sdctrl_frames s is = ct_frames v"
proof -
  have "fsm (sdctrl_run s is) = IDLE \<and> sdctrl_frames s is = drop (unat (pos s)) (ct_frames v)"
  proof (rule cfg_stream [where st = CFG_TIMEOUT_CMD and P = "\<lambda>i. cmdtimeout i = v"])
    show "sdctrl_step s i = s" if "fsm s = CFG_TIMEOUT_CMD" "\<not> source_ready i" for s i
      using that by (simp add: sdctrl_step_def act_CFG_TIMEOUT_CMD_def)
    show "fsm (sdctrl_step s i) = IDLE"
      if "fsm s = CFG_TIMEOUT_CMD" "source_ready i" "Suc (unat (pos s)) = length (ct_frames v)" for s i
    proof -
      from that(3) have "unat (pos s) = 3" by (simp add: ct_frames_def)
      then have "pos s = 3" by (simp add: unat_pos_eq)
      with that(1,2) show ?thesis
        by (simp add: sdctrl_step_def act_CFG_TIMEOUT_CMD_def source_valid_def Let_def)
    qed
    show "sdctrl_step s i = s\<lparr>pos := pos s + 1\<rparr>"
      if "fsm s = CFG_TIMEOUT_CMD" "source_ready i" "Suc (unat (pos s)) < length (ct_frames v)" for s i
    proof -
      from that(3) have "unat (pos s) \<noteq> 3" by (simp add: ct_frames_def)
      then have "pos s \<noteq> 3" by (simp add: unat_pos_eq)
      with that(1,2) show ?thesis
        by (simp add: sdctrl_step_def act_CFG_TIMEOUT_CMD_def source_valid_def Let_def)
    qed
    show "source_valid s i \<and> (source_data s i, source_ctrl s) = ct_frames v ! unat (pos s)"
      if "fsm s = CFG_TIMEOUT_CMD" "cmdtimeout i = v" for s i
      using ct_frame [OF that] by simp
  qed (use assms in \<open>simp_all add: ct_frames_def\<close>)
  then show ?thesis using assms(2) by simp
qed

lemma blk_stream:
  assumes "fsm s = CFG_BLKSIZE" and "pos s = 0" and "\<forall>i\<in>set is. blocksize i = v"
    and "length (filter source_ready is) = 2" and "source_ready (last is)"
  shows "fsm (sdctrl_run s is) = IDLE \<and> sdctrl_frames s is = blk_frames v"
proof -
  have "fsm (sdctrl_run s is) = IDLE \<and> sdctrl_frames s is = drop (unat (pos s)) (blk_frames v)"
  proof (rule cfg_stream [where st = CFG_BLKSIZE and P = "\<lambda>i. blocksize i = v"])
    show "sdctrl_step s i = s" if "fsm s = CFG_BLKSIZE" "\<not> source_ready i" for s i
      using that by (simp add: sdctrl_step_def act_CFG_BLKSIZE_def)
    show "fsm (sdctrl_step s i) = IDLE"
      if "fsm s = CFG_BLKSIZE" "source_ready i" "Suc (unat (pos s)) = length (blk_frames v)" for s i
    proof -
      from that(3) have "unat (pos s) = 1" by (simp add: blk_frames_def)
      then have "pos s = 1" by (simp add: unat_pos_eq)
      with that(1,2) show ?thesis
        by (simp add: sdctrl_step_def act_CFG_BLKSIZE_def source_valid_def Let_def)
    qed
    show "sdctrl_step s i = s\<lparr>pos := pos s + 1\<rparr>"
      if "fsm s = CFG_BLKSIZE" "source_ready i" "Suc (unat (pos s)) < length (blk_frames v)" for s i
    proof -
      from that(3) have "unat (pos s) \<noteq> 1" by (simp add: blk_frames_def)
      then have "pos s \<noteq> 1" by (simp add: unat_pos_eq)
      with that(1,2) show ?thesis
        by (simp add: sdctrl_step_def act_CFG_BLKSIZE_def source_valid_def Let_def)
    qed
    show "source_valid s i \<and> (source_data s i, source_ctrl s) = blk_frames v ! unat (pos s)"
      if "fsm s = CFG_BLKSIZE" "blocksize i = v" "unat (pos s) < length (blk_frames v)" for s i
      using blk_frame [OF that(1,2)] that(3) by (simp add: blk_frames_def)
  qed (use assms in \<open>simp_all add: blk_frames_def\<close>)
  then show ?thesis using assms(2) by simp
qed

lemma volt_stream:
  assumes "fsm s = CFG_VOLTAGE" and "pos s = 0" and "\<forall>i\<in>set is. voltage i = v"
    and "length (filter source_ready is) = 1" and "source_ready (last is)"
  shows "fsm (sdctrl_run s is) = IDLE \<and> sdctrl_frames s is = volt_frames v"
proof -
  have "fsm (sdctrl_run s is) = IDLE \<and> sdctrl_frames s is = drop (unat (pos s)) (volt_frames v)"
  proof (rule cfg_stream [where st = CFG_VOLTAGE and P = "\<lambda>i. voltage i = v"])
    show "sdctrl_step s i = s" if "fsm s = CFG_VOLTAGE" "\<not> source_ready i" for s i
      using that by (simp add: sdctrl_step_def act_CFG_VOLTAGE_def)
    show "fsm (sdctrl_step s i) = IDLE"
      if "fsm s = CFG_VOLTAGE" "source_ready i" for s i
      using that by (simp add: sdctrl_step_def act_CFG_VOLTAGE_def source_valid_def)
    show "sdctrl_step s i = s\<lparr>pos := pos s + 1\<rparr>"
      if "Suc (unat (pos s)) < length (volt_frames v)" for s i
      using that by (simp add: volt_frames_def)
    show "source_valid s i \<and> (source_data s i, source_ctrl s) = volt_frames v ! unat (pos s)"
      if "fsm s = CFG_VOLTAGE" "voltage i = v" "unat (pos s) < length (volt_frames v)" for s i
      using volt_frame [OF that(1,2)] that(3) by (simp add: volt_frames_def)
  qed (use assms in \<open>simp_all add: volt_frames_def\<close>)
  then show ?thesis using assms(2) by simp
qed

lemma strobes_not_read_in_flight:
  assumes "fsm t \<noteq> IDLE"
  shows "sdctrl_step t (i\<lparr>datatimeout_re := a, cmdtimeout_re := b, voltage_re := d,
            blocksize_re := e\<rparr>) = sdctrl_step t i"
  using assms
  by (cases "fsm t")
    (simp_all add: sdctrl_step_def act_defs source_valid_def waitresp_def dataxfer_def status_def
      crc16_source_ready_def Let_def)

text \<open>
  C8, as the code has it. The machine is in IDLE and a configuration strobe is high; the
  register keeps its value while its bytes are handed over, with any number of stalled
  cycles in between. The machine returns to IDLE when the last byte is accepted, the
  frames handed over are the bytes of the value tagged with their modes, and applying them
  in order to the latch makes \<open>cfgdtimeout\<close>, \<open>cfgctimeout\<close> and \<open>cfgblksize\<close> equal to the
  written value. \<open>cfgvoltage\<close> is one bit wide and receives bit 0 of the voltage register.
  Outside IDLE the step does not read the four configuration strobes.
\<close>

theorem config_round_trip:
  assumes "fsm s = IDLE" and "source_ready (last is)"
  shows "(datatimeout_re i0 \<and> (\<forall>i\<in>set is. datatimeout i = tv)
          \<and> length (filter source_ready is) = 4 \<longrightarrow>
            fsm (sdctrl_run s (i0 # is)) = IDLE
            \<and> sdctrl_frames s (i0 # is) = dt_frames tv
            \<and> cfgdtimeout (sdphy_cfg_run c (sdctrl_frames s (i0 # is))) = tv)
    \<and> (\<not> datatimeout_re i0 \<and> cmdtimeout_re i0 \<and> (\<forall>i\<in>set is. cmdtimeout i = tv)
          \<and> length (filter source_ready is) = 4 \<longrightarrow>
            fsm (sdctrl_run s (i0 # is)) = IDLE
            \<and> sdctrl_frames s (i0 # is) = ct_frames tv
            \<and> cfgctimeout (sdphy_cfg_run c (sdctrl_frames s (i0 # is))) = tv)
    \<and> (\<not> datatimeout_re i0 \<and> \<not> cmdtimeout_re i0 \<and> voltage_re i0
          \<and> (\<forall>i\<in>set is. voltage i = vv) \<and> length (filter source_ready is) = 1 \<longrightarrow>
            fsm (sdctrl_run s (i0 # is)) = IDLE
            \<and> sdctrl_frames s (i0 # is) = volt_frames vv
            \<and> cfgvoltage (sdphy_cfg_run c (sdctrl_frames s (i0 # is))) = bits_from 0 vv)
    \<and> (\<not> datatimeout_re i0 \<and> \<not> cmdtimeout_re i0 \<and> \<not> voltage_re i0 \<and> blocksize_re i0
          \<and> (\<forall>i\<in>set is. blocksize i = bv) \<and> length (filter source_ready is) = 2 \<longrightarrow>
            fsm (sdctrl_run s (i0 # is)) = IDLE
            \<and> sdctrl_frames s (i0 # is) = blk_frames bv
            \<and> cfgblksize (sdphy_cfg_run c (sdctrl_frames s (i0 # is))) = bv)
    \<and> (fsm t \<noteq> IDLE \<longrightarrow>
          sdctrl_step t (i\<lparr>datatimeout_re := a, cmdtimeout_re := b, voltage_re := d,
            blocksize_re := e\<rparr>) = sdctrl_step t i)"
proof -
  note fr = idle_no_frame [OF assms(1), of i0 "is"]
  have dt: "fsm (sdctrl_run s (i0 # is)) = IDLE \<and> sdctrl_frames s (i0 # is) = dt_frames tv"
    if "datatimeout_re i0" "\<forall>i\<in>set is. datatimeout i = tv" "length (filter source_ready is) = 4"
  proof -
    have "sdctrl_step s i0 = s\<lparr>pos := 0, fsm := CFG_TIMEOUT_DATA\<rparr>"
      using assms(1) that(1) by (simp add: sdctrl_step_def act_IDLE_def)
    then show ?thesis
      using dt_stream [of "sdctrl_step s i0" "is" tv] that(2,3) assms(2) fr by simp
  qed
  have ct: "fsm (sdctrl_run s (i0 # is)) = IDLE \<and> sdctrl_frames s (i0 # is) = ct_frames tv"
    if "\<not> datatimeout_re i0" "cmdtimeout_re i0" "\<forall>i\<in>set is. cmdtimeout i = tv"
      "length (filter source_ready is) = 4"
  proof -
    have "sdctrl_step s i0 = s\<lparr>pos := 0, fsm := CFG_TIMEOUT_CMD\<rparr>"
      using assms(1) that(1,2) by (simp add: sdctrl_step_def act_IDLE_def)
    then show ?thesis
      using ct_stream [of "sdctrl_step s i0" "is" tv] that(3,4) assms(2) fr by simp
  qed
  have vo: "fsm (sdctrl_run s (i0 # is)) = IDLE \<and> sdctrl_frames s (i0 # is) = volt_frames vv"
    if "\<not> datatimeout_re i0" "\<not> cmdtimeout_re i0" "voltage_re i0" "\<forall>i\<in>set is. voltage i = vv"
      "length (filter source_ready is) = 1"
  proof -
    have "sdctrl_step s i0 = s\<lparr>pos := 0, fsm := CFG_VOLTAGE\<rparr>"
      using assms(1) that(1,2,3) by (simp add: sdctrl_step_def act_IDLE_def)
    then show ?thesis
      using volt_stream [of "sdctrl_step s i0" "is" vv] that(4,5) assms(2) fr by simp
  qed
  have bl: "fsm (sdctrl_run s (i0 # is)) = IDLE \<and> sdctrl_frames s (i0 # is) = blk_frames bv"
    if "\<not> datatimeout_re i0" "\<not> cmdtimeout_re i0" "\<not> voltage_re i0" "blocksize_re i0"
      "\<forall>i\<in>set is. blocksize i = bv" "length (filter source_ready is) = 2"
  proof -
    have "sdctrl_step s i0 = s\<lparr>pos := 0, fsm := CFG_BLKSIZE\<rparr>"
      using assms(1) that(1,2,3,4) by (simp add: sdctrl_step_def act_IDLE_def)
    then show ?thesis
      using blk_stream [of "sdctrl_step s i0" "is" bv] that(5,6) assms(2) fr by simp
  qed
  show ?thesis
    using dt ct vo bl latch_dt [of c tv] latch_ct [of c tv] latch_volt [of c vv]
      latch_blk [of c bv] strobes_not_read_in_flight [where t = t and i = i and a = a and b = b and d = d and e = e]
    by presburger
qed

text \<open>
  Witness of C8: block size 512 with a stalled cycle between its two bytes, data timeout
  0x12345678, voltage 1, and a block-size strobe during SEND_CMD.
\<close>

theorem config_round_trip_witness:
  "fsm sdctrl_reset = IDLE
   \<and> source_ready (last [blk512_ready, blk512, blk512_ready])
   \<and> blocksize_re (blk512\<lparr>blocksize_re := True\<rparr>)
   \<and> blocksize blk512 = 512 \<and> blocksize blk512_ready = 512
   \<and> length (filter source_ready [blk512_ready, blk512, blk512_ready]) = 2
   \<and> fsm (sdctrl_run sdctrl_reset
        (blk512\<lparr>blocksize_re := True\<rparr> # [blk512_ready, blk512, blk512_ready])) = IDLE
   \<and> cfgblksize (sdphy_cfg_run sdphycfg_reset (sdctrl_frames sdctrl_reset
        (blk512\<lparr>blocksize_re := True\<rparr> # [blk512_ready, blk512, blk512_ready]))) = 512
   \<and> datatimeout_re (blk512\<lparr>datatimeout_re := True\<rparr>)
   \<and> datatimeout blk512_ready = 305419896
   \<and> length (filter source_ready [blk512_ready, blk512_ready, blk512_ready, blk512_ready]) = 4
   \<and> cfgdtimeout (sdphy_cfg_run sdphycfg_reset (sdctrl_frames sdctrl_reset
        (blk512\<lparr>datatimeout_re := True\<rparr> # [blk512_ready, blk512_ready, blk512_ready, blk512_ready])))
       = 305419896
   \<and> voltage_re (blk512\<lparr>voltage_re := True\<rparr>)
   \<and> voltage blk512_ready = 1
   \<and> cfgvoltage (sdphy_cfg_run sdphycfg_reset (sdctrl_frames sdctrl_reset
        (blk512\<lparr>voltage_re := True\<rparr> # [blk512_ready]))) = 1
   \<and> fsm (sdctrl_step sdctrl_reset cmd0_write) \<noteq> IDLE
   \<and> sdctrl_step (sdctrl_step sdctrl_reset cmd0_write)
        (accept_byte\<lparr>datatimeout_re := False, cmdtimeout_re := False, voltage_re := False,
           blocksize_re := True\<rparr>)
       = sdctrl_step (sdctrl_step sdctrl_reset cmd0_write) accept_byte"
proof -
  have idle: "fsm sdctrl_reset = IDLE" by (simp add: sdctrl_reset_def)
  have flds: "blocksize blk512 = 512" "blocksize blk512_ready = 512"
    "datatimeout blk512_ready = 305419896" "voltage blk512_ready = 1"
    "source_ready blk512_ready" "\<not> source_ready blk512"
    by (simp_all add: blk512_def blk512_ready_def quiet_def)
  have re: "blocksize_re (blk512\<lparr>blocksize_re := True\<rparr>)"
    "\<not> datatimeout_re (blk512\<lparr>blocksize_re := True\<rparr>)"
    "\<not> cmdtimeout_re (blk512\<lparr>blocksize_re := True\<rparr>)"
    "\<not> voltage_re (blk512\<lparr>blocksize_re := True\<rparr>)"
    "datatimeout_re (blk512\<lparr>datatimeout_re := True\<rparr>)"
    "voltage_re (blk512\<lparr>voltage_re := True\<rparr>)"
    "\<not> datatimeout_re (blk512\<lparr>voltage_re := True\<rparr>)"
    "\<not> cmdtimeout_re (blk512\<lparr>voltage_re := True\<rparr>)"
    by (simp_all add: blk512_def quiet_def)
  have l3: "source_ready (last [blk512_ready, blk512, blk512_ready])"
    and c3: "length (filter source_ready [blk512_ready, blk512, blk512_ready]) = 2"
    and a3: "\<forall>i\<in>set [blk512_ready, blk512, blk512_ready]. blocksize i = 512"
    using flds by simp_all
  have l4: "source_ready (last [blk512_ready, blk512_ready, blk512_ready, blk512_ready])"
    and c4: "length (filter source_ready [blk512_ready, blk512_ready, blk512_ready, blk512_ready]) = 4"
    and a4: "\<forall>i\<in>set [blk512_ready, blk512_ready, blk512_ready, blk512_ready].
        datatimeout i = 305419896"
    using flds by simp_all
  have l1: "source_ready (last [blk512_ready])"
    and c1: "length (filter source_ready [blk512_ready]) = 1"
    and a1: "\<forall>i\<in>set [blk512_ready]. voltage i = 1"
    using flds by simp_all
  have fl: "fsm (sdctrl_step sdctrl_reset cmd0_write) \<noteq> IDLE"
    by (simp add: sdctrl_step_def act_IDLE_def sdctrl_reset_def cmd0_write_def quiet_def)
  have same: "accept_byte\<lparr>datatimeout_re := False, cmdtimeout_re := False, voltage_re := False,
      blocksize_re := False\<rparr> = accept_byte"
    by (simp add: accept_byte_def quiet_def)
  have v1: "(bits_from 0 (1 :: 8 word) :: 1 word) = 1"
    by (simp add: bits_from_def)
  note blk = config_round_trip [OF idle l3, where ?i0.0 = "blk512\<lparr>blocksize_re := True\<rparr>"
      and bv = 512 and c = sdphycfg_reset and t = "sdctrl_step sdctrl_reset cmd0_write"
      and i = accept_byte and a = False and b = False and d = False and e = True]
  note dt = config_round_trip [OF idle l4, where ?i0.0 = "blk512\<lparr>datatimeout_re := True\<rparr>"
      and tv = 305419896 and c = sdphycfg_reset]
  note vo = config_round_trip [OF idle l1, where ?i0.0 = "blk512\<lparr>voltage_re := True\<rparr>"
      and vv = 1 and c = sdphycfg_reset]
  have r1: "fsm (sdctrl_run sdctrl_reset
        (blk512\<lparr>blocksize_re := True\<rparr> # [blk512_ready, blk512, blk512_ready])) = IDLE
      \<and> cfgblksize (sdphy_cfg_run sdphycfg_reset (sdctrl_frames sdctrl_reset
        (blk512\<lparr>blocksize_re := True\<rparr> # [blk512_ready, blk512, blk512_ready]))) = 512"
    using blk re a3 c3 by blast
  have r2: "cfgdtimeout (sdphy_cfg_run sdphycfg_reset (sdctrl_frames sdctrl_reset
        (blk512\<lparr>datatimeout_re := True\<rparr> # [blk512_ready, blk512_ready, blk512_ready, blk512_ready])))
       = 305419896"
    using dt re a4 c4 by blast
  have r3: "cfgvoltage (sdphy_cfg_run sdphycfg_reset (sdctrl_frames sdctrl_reset
        (blk512\<lparr>voltage_re := True\<rparr> # [blk512_ready]))) = 1"
    using vo re a1 c1 unfolding v1 by blast
  have r4: "sdctrl_step (sdctrl_step sdctrl_reset cmd0_write)
        (accept_byte\<lparr>datatimeout_re := False, cmdtimeout_re := False, voltage_re := False,
           blocksize_re := True\<rparr>)
       = sdctrl_step (sdctrl_step sdctrl_reset cmd0_write) accept_byte"
    using blk fl by blast
  show ?thesis
    using idle l3 re(1,5,6) flds(1,2,3,4) c3 c4 r1 r2 r3 fl r4 by blast
qed

text \<open>
  Counterexample to C8 as stated: the voltage register holds 2. Its byte is handed over
  with mode CFG_VOLTAGE and the latch keeps bit 0 of it: \<open>cfgvoltage\<close> is 0, not 2.
\<close>

theorem voltage_copy_is_bit0:
  "voltage volt2 = 2
   \<and> fsm (sdctrl_run sdctrl_reset [volt2\<lparr>voltage_re := True\<rparr>, volt2\<lparr>source_ready := True\<rparr>]) = IDLE
   \<and> sdctrl_frames sdctrl_reset [volt2\<lparr>voltage_re := True\<rparr>, volt2\<lparr>source_ready := True\<rparr>]
       = [(2, 44)]
   \<and> cfgvoltage (sdphy_cfg_run sdphycfg_reset
        (sdctrl_frames sdctrl_reset [volt2\<lparr>voltage_re := True\<rparr>, volt2\<lparr>source_ready := True\<rparr>])) = 0
   \<and> unat (cfgvoltage (sdphy_cfg_run sdphycfg_reset
        (sdctrl_frames sdctrl_reset [volt2\<lparr>voltage_re := True\<rparr>, volt2\<lparr>source_ready := True\<rparr>])))
       \<noteq> unat (voltage volt2)"
  by (simp add: volt2_def quiet_def sdctrl_reset_def sdctrl_step_def act_IDLE_def
      act_CFG_VOLTAGE_def source_valid_def source_data_def source_ctrl_def cmddata_def rdwr_def
      mode_def bits_from_def sdphy_cfg_deliver_def sdphycfg_step_def cfgcases_def
      sdphycfg_reset_def drop_bit_eq_div)

end
